theory Spec2Isabelle
  imports Main "HOL-Library.Word"
begin

section \<open>Values, instructions and status codes (grunt.h, grunt_status.h)\<close>

type_synonym grunt_boolean_t = bool
type_synonym grunt_number_t = "32 word"
type_synonym grunt_string_t = "16 word"
type_synonym grunt_pc_t = "16 word"
type_synonym grunt_rep_t = "16 word"

text \<open>The enum \<^verbatim>\<open>grunt_value_type_t\<close> and the tagged union \<^verbatim>\<open>grunt_value_t\<close>. A value
  carries the union member that belongs to its tag; \<open>type_of\<close> reads the \<^verbatim>\<open>type\<close> field and
  \<open>val_b\<close>, \<open>val_num\<close>, \<open>val_str\<close>, \<open>val_pc\<close> read the members of \<^verbatim>\<open>val\<close>. The source reads a
  member only after it has tested the tag, except in \<^verbatim>\<open>grunt_vm_return\<close>, which reads
  \<^verbatim>\<open>val.pc\<close> of a control-stack slot; the member functions return a zero value on the other
  tags, and \<open>ctl_slots_are_pc\<close> below shows that a run never reads a control slot of another
  tag.\<close>

datatype grunt_value_type_t = gt_bool | gt_num | gt_str | gt_pc

datatype grunt_value_t =
    VBool grunt_boolean_t
  | VNum grunt_number_t
  | VStr grunt_string_t
  | VPC grunt_pc_t

fun type_of :: "grunt_value_t \<Rightarrow> grunt_value_type_t" where
  "type_of (VBool b) = gt_bool"
| "type_of (VNum n) = gt_num"
| "type_of (VStr i) = gt_str"
| "type_of (VPC p) = gt_pc"

fun val_b :: "grunt_value_t \<Rightarrow> grunt_boolean_t" where
  "val_b (VBool b) = b"
| "val_b v = False"

fun val_num :: "grunt_value_t \<Rightarrow> grunt_number_t" where
  "val_num (VNum n) = n"
| "val_num v = 0"

fun val_str :: "grunt_value_t \<Rightarrow> grunt_string_t" where
  "val_str (VStr i) = i"
| "val_str v = 0"

fun val_pc :: "grunt_value_t \<Rightarrow> grunt_pc_t" where
  "val_pc (VPC p) = p"
| "val_pc v = 0"

abbreviation (input) GRUNT_NUM_MAX :: grunt_number_t where "GRUNT_NUM_MAX \<equiv> 0xFFFFFFFF"
abbreviation (input) UINT16_MAX :: nat where "UINT16_MAX \<equiv> 65535"
abbreviation (input) GRUNT_REP_MAX :: nat where "GRUNT_REP_MAX \<equiv> 65535"

text \<open>Opcodes (\<^verbatim>\<open>grunt_opcode_t\<close> is an unsigned short; no arithmetic is done on it).\<close>

abbreviation (input) GRUNT_OP_ADD :: nat where "GRUNT_OP_ADD \<equiv> 0x01"
abbreviation (input) GRUNT_OP_AND :: nat where "GRUNT_OP_AND \<equiv> 0x02"
abbreviation (input) GRUNT_OP_CALL :: nat where "GRUNT_OP_CALL \<equiv> 0x03"
abbreviation (input) GRUNT_OP_DUP :: nat where "GRUNT_OP_DUP \<equiv> 0x04"
abbreviation (input) GRUNT_OP_EQ :: nat where "GRUNT_OP_EQ \<equiv> 0x05"
abbreviation (input) GRUNT_OP_FLUSH :: nat where "GRUNT_OP_FLUSH \<equiv> 0x06"
abbreviation (input) GRUNT_OP_GT :: nat where "GRUNT_OP_GT \<equiv> 0x07"
abbreviation (input) GRUNT_OP_HALT :: nat where "GRUNT_OP_HALT \<equiv> 0x08"
abbreviation (input) GRUNT_OP_JMPIF :: nat where "GRUNT_OP_JMPIF \<equiv> 0x09"
abbreviation (input) GRUNT_OP_LT :: nat where "GRUNT_OP_LT \<equiv> 0x0A"
abbreviation (input) GRUNT_OP_NOT :: nat where "GRUNT_OP_NOT \<equiv> 0x0B"
abbreviation (input) GRUNT_OP_OR :: nat where "GRUNT_OP_OR \<equiv> 0x0C"
abbreviation (input) GRUNT_OP_OUTPUT :: nat where "GRUNT_OP_OUTPUT \<equiv> 0x0D"
abbreviation (input) GRUNT_OP_POP :: nat where "GRUNT_OP_POP \<equiv> 0x0E"
abbreviation (input) GRUNT_OP_PUSHB :: nat where "GRUNT_OP_PUSHB \<equiv> 0x0F"
abbreviation (input) GRUNT_OP_PUSHN :: nat where "GRUNT_OP_PUSHN \<equiv> 0x10"
abbreviation (input) GRUNT_OP_PUSHS :: nat where "GRUNT_OP_PUSHS \<equiv> 0x11"
abbreviation (input) GRUNT_OP_INPUT :: nat where "GRUNT_OP_INPUT \<equiv> 0x12"
abbreviation (input) GRUNT_OP_RETURN :: nat where "GRUNT_OP_RETURN \<equiv> 0x13"
abbreviation (input) GRUNT_OP_REWIND :: nat where "GRUNT_OP_REWIND \<equiv> 0x14"
abbreviation (input) GRUNT_OP_ROLL :: nat where "GRUNT_OP_ROLL \<equiv> 0x15"
abbreviation (input) GRUNT_OP_SUB :: nat where "GRUNT_OP_SUB \<equiv> 0x16"

text \<open>An instruction is an opcode and the union \<^verbatim>\<open>arg\<close> of a repetition count and a
  literal. The record keeps what each member of the union reads as: \<open>arg_rep\<close> for
  \<^verbatim>\<open>arg.rep\<close> and \<open>arg_lit\<close> for \<^verbatim>\<open>arg.lit\<close>. The designated initialisers of the macros
  zero the member they do not name.\<close>

record grunt_instruction_t =
  op :: nat
  arg_rep :: grunt_rep_t
  arg_lit :: grunt_value_t

definition mk_rep :: "nat \<Rightarrow> grunt_rep_t \<Rightarrow> grunt_instruction_t" where
  "mk_rep c r = \<lparr>op = c, arg_rep = r, arg_lit = VBool False\<rparr>"

definition mk_lit :: "nat \<Rightarrow> grunt_value_t \<Rightarrow> grunt_instruction_t" where
  "mk_lit c v = \<lparr>op = c, arg_rep = 0, arg_lit = v\<rparr>"

definition ADD :: grunt_instruction_t where "ADD = mk_rep GRUNT_OP_ADD 0"
definition AND :: "grunt_rep_t \<Rightarrow> grunt_instruction_t" where "AND r = mk_rep GRUNT_OP_AND r"
definition CALL :: "grunt_pc_t \<Rightarrow> grunt_instruction_t" where "CALL sub = mk_lit GRUNT_OP_CALL (VPC sub)"
definition DUP :: "grunt_rep_t \<Rightarrow> grunt_instruction_t" where "DUP r = mk_rep GRUNT_OP_DUP r"
definition EQ :: "grunt_rep_t \<Rightarrow> grunt_instruction_t" where "EQ r = mk_rep GRUNT_OP_EQ r"
definition FLUSH :: grunt_instruction_t where "FLUSH = mk_rep GRUNT_OP_FLUSH 0"
definition GT :: grunt_instruction_t where "GT = mk_rep GRUNT_OP_GT 0"
definition HALT :: grunt_instruction_t where "HALT = mk_rep GRUNT_OP_HALT 0"
definition INPUT :: "grunt_rep_t \<Rightarrow> grunt_instruction_t" where "INPUT r = mk_rep GRUNT_OP_INPUT r"
definition JMPIF :: "grunt_pc_t \<Rightarrow> grunt_instruction_t" where "JMPIF l = mk_lit GRUNT_OP_JMPIF (VPC l)"
definition LT :: grunt_instruction_t where "LT = mk_rep GRUNT_OP_LT 0"
definition NOT :: grunt_instruction_t where "NOT = mk_rep GRUNT_OP_NOT 0"
definition OR :: "grunt_rep_t \<Rightarrow> grunt_instruction_t" where "OR r = mk_rep GRUNT_OP_OR r"
definition OUTPUT :: grunt_instruction_t where "OUTPUT = mk_rep GRUNT_OP_OUTPUT 0"
definition POP :: "grunt_rep_t \<Rightarrow> grunt_instruction_t" where "POP r = mk_rep GRUNT_OP_POP r"
definition PUSHB :: "bool \<Rightarrow> grunt_instruction_t" where "PUSHB tf = mk_lit GRUNT_OP_PUSHB (VBool tf)"
definition PUSHN :: "grunt_number_t \<Rightarrow> grunt_instruction_t" where "PUSHN n = mk_lit GRUNT_OP_PUSHN (VNum n)"
definition PUSHS :: "grunt_string_t \<Rightarrow> grunt_instruction_t" where "PUSHS i = mk_lit GRUNT_OP_PUSHS (VStr i)"
definition RETURN :: grunt_instruction_t where "RETURN = mk_rep GRUNT_OP_RETURN 0"
definition REWIND :: "grunt_rep_t \<Rightarrow> grunt_instruction_t" where "REWIND r = mk_rep GRUNT_OP_REWIND r"
definition ROLL :: "grunt_rep_t \<Rightarrow> grunt_instruction_t" where "ROLL r = mk_rep GRUNT_OP_ROLL r"
definition SUB :: grunt_instruction_t where "SUB = mk_rep GRUNT_OP_SUB 0"

text \<open>Status codes. \<open>0\<close> is success; the run loop goes on while the step returns \<open>0\<close>.\<close>

abbreviation (input) GRUNT_HALT_TRUE :: int where "GRUNT_HALT_TRUE \<equiv> 0x01"
abbreviation (input) GRUNT_HALT_FALSE :: int where "GRUNT_HALT_FALSE \<equiv> 0x02"
abbreviation (input) GRUNT_ERROR_INTERPRETERBUG :: int where "GRUNT_ERROR_INTERPRETERBUG \<equiv> 0x11"
abbreviation (input) GRUNT_ERROR_INVALIDARGUMENT :: int where "GRUNT_ERROR_INVALIDARGUMENT \<equiv> 0x12"
abbreviation (input) GRUNT_ERROR_INVALIDLITERAL :: int where "GRUNT_ERROR_INVALIDLITERAL \<equiv> 0x13"
abbreviation (input) GRUNT_ERROR_INVALIDOPCODE :: int where "GRUNT_ERROR_INVALIDOPCODE \<equiv> 0x14"
abbreviation (input) GRUNT_ERROR_NOLOOPS :: int where "GRUNT_ERROR_NOLOOPS \<equiv> 0x15"
abbreviation (input) GRUNT_ERROR_NOPROGRAM :: int where "GRUNT_ERROR_NOPROGRAM \<equiv> 0x16"
abbreviation (input) GRUNT_ERROR_OUTOFBOUNDS :: int where "GRUNT_ERROR_OUTOFBOUNDS \<equiv> 0x17"


section \<open>Interpreter state\<close>

text \<open>The file-scope variables of \<^verbatim>\<open>grunt.c\<close>, \<^verbatim>\<open>grunt_stack.c\<close>, \<^verbatim>\<open>grunt_input.c\<close> and
  \<^verbatim>\<open>grunt_output.c\<close>, collected in one record that every function takes and returns.
  \<^item> \<open>g_stack\<close> is the array \<^verbatim>\<open>g_stack[GRUNT_STACK_SIZE]\<close>, a map from indices to slots. The
    counts are C \<^verbatim>\<open>int\<close>s that start at 0 and are decremented only after a test against 0,
    so they are naturals here.
  \<^item> \<open>g_input_queue\<close> is the pointer to the input bytes; \<open>None\<close> is the null pointer.
  \<^item> \<open>g_string_table\<close> holds the bytes found at each string pointer.
  \<^item> \<open>evs_sent\<close> is the log of the calls made to \<^verbatim>\<open>CFE_EVS_SendEvent\<close>, oldest first: the
    event id, the event type and the text of the \<^verbatim>\<open>%s\<close> argument.\<close>

type_synonym evs_event = "grunt_number_t \<times> grunt_number_t \<times> string"

record grunt_state =
  g_ra :: grunt_value_t
  g_rb :: grunt_value_t
  g_pc :: grunt_pc_t
  g_stack :: "nat \<Rightarrow> grunt_value_t"
  g_argument_count :: nat
  g_control_count :: nat
  g_input_queue :: "8 word list option"
  g_input_queue_size :: grunt_rep_t
  g_head_index :: grunt_rep_t
  g_string_table :: "string list"
  g_num_strings :: grunt_rep_t
  g_output_queue :: "char list"
  g_tail_index :: grunt_rep_t
  evs_sent :: "evs_event list"

text \<open>The pointers \<^verbatim>\<open>&g_ra\<close> and \<^verbatim>\<open>&g_rb\<close> that \<^verbatim>\<open>grunt_vm_step\<close> hands to the operations.\<close>

datatype reg = RA | RB

fun deref :: "reg \<Rightarrow> grunt_state \<Rightarrow> grunt_value_t" where
  "deref RA s = g_ra s"
| "deref RB s = g_rb s"

fun store :: "reg \<Rightarrow> grunt_value_t \<Rightarrow> grunt_state \<Rightarrow> grunt_state" where
  "store RA v s = s\<lparr>g_ra := v\<rparr>"
| "store RB v s = s\<lparr>g_rb := v\<rparr>"

text \<open>\<^verbatim>\<open>if ((status = f(...))) return status;\<close> followed by the rest of the function.\<close>

definition chk :: "int \<times> 's \<Rightarrow> ('s \<Rightarrow> int \<times> 's) \<Rightarrow> int \<times> 's" where
  "chk r k = (case r of (status, s) \<Rightarrow> if status \<noteq> 0 then (status, s) else k s)"

section \<open>The two stacks (grunt_stack.c)\<close>

definition GRUNT_STACK_SIZE :: nat where
  "GRUNT_STACK_SIZE = 2 * 16"

text \<open>\<^verbatim>\<open>memcpy(&a[dst], &a[src], n * sizeof(a[0]))\<close> on an array. Every slot of the
  destination receives the slot of the source as it was before the call. In
  \<^verbatim>\<open>grunt_stack_arg_roll\<close> the two ranges overlap when \<open>n > 2\<close>, where C leaves the result of
  \<^verbatim>\<open>memcpy\<close> open; the model takes the reading under which the example of the source's own
  comment (\<^verbatim>\<open>ROL 3 ; w x y z -- w z x y\<close>) holds.\<close>

definition memcpy_slots :: "nat \<Rightarrow> nat \<Rightarrow> nat \<Rightarrow> (nat \<Rightarrow> 'a) \<Rightarrow> (nat \<Rightarrow> 'a)" where
  "memcpy_slots dst src n a = (\<lambda>j. if dst \<le> j \<and> j < dst + n then a (src + (j - dst)) else a j)"

definition grunt_stack_init :: "grunt_state \<Rightarrow> grunt_state" where
  "grunt_stack_init s = s\<lparr>g_argument_count := 0, g_control_count := 0\<rparr>"

definition grunt_stack_arg_push :: "grunt_value_t \<Rightarrow> grunt_state \<Rightarrow> int \<times> grunt_state" where
  "grunt_stack_arg_push arg s =
     (if \<not> (type_of arg = gt_bool \<or> type_of arg = gt_num \<or> type_of arg = gt_str)
      then (GRUNT_ERROR_INTERPRETERBUG, s)
      else if g_argument_count s + g_control_count s + 1 > GRUNT_STACK_SIZE
      then (GRUNT_ERROR_OUTOFBOUNDS, s)
      else (0, s\<lparr>g_stack := (g_stack s)(g_argument_count s := arg),
                 g_argument_count := g_argument_count s + 1\<rparr>))"

definition grunt_stack_arg_pop :: "reg \<Rightarrow> grunt_state \<Rightarrow> int \<times> grunt_state" where
  "grunt_stack_arg_pop p_arg s =
     (if g_argument_count s = 0 then (GRUNT_ERROR_OUTOFBOUNDS, s)
      else (0, store p_arg (g_stack s (g_argument_count s - 1))
                 (s\<lparr>g_argument_count := g_argument_count s - 1\<rparr>)))"

definition grunt_stack_arg_dup :: "grunt_rep_t \<Rightarrow> grunt_state \<Rightarrow> int \<times> grunt_state" where
  "grunt_stack_arg_dup n s =
     (if n = 0 then (GRUNT_ERROR_INTERPRETERBUG, s)
      else if g_argument_count s < unat n then (GRUNT_ERROR_OUTOFBOUNDS, s)
      else if g_argument_count s + g_control_count s + unat n > GRUNT_STACK_SIZE
      then (GRUNT_ERROR_OUTOFBOUNDS, s)
      else (0, s\<lparr>g_stack := memcpy_slots (g_argument_count s) (g_argument_count s - unat n)
                                (unat n) (g_stack s),
                 g_argument_count := g_argument_count s + unat n\<rparr>))"

definition grunt_stack_arg_roll :: "grunt_rep_t \<Rightarrow> grunt_state \<Rightarrow> int \<times> grunt_state" where
  "grunt_stack_arg_roll n s =
     (if n < 2 then (GRUNT_ERROR_INTERPRETERBUG, s)
      else if g_argument_count s < unat n then (GRUNT_ERROR_OUTOFBOUNDS, s)
      else let temp = g_stack s (g_argument_count s - 1);
               moved = memcpy_slots (g_argument_count s - unat n + 1)
                         (g_argument_count s - unat n) (unat n - 1) (g_stack s)
           in (0, s\<lparr>g_stack := moved(g_argument_count s - unat n := temp)\<rparr>))"

definition grunt_stack_ctl_push :: "grunt_value_t \<Rightarrow> grunt_state \<Rightarrow> int \<times> grunt_state" where
  "grunt_stack_ctl_push arg s =
     (if \<not> (type_of arg = gt_pc) then (GRUNT_ERROR_INTERPRETERBUG, s)
      else if g_argument_count s + g_control_count s + 1 > GRUNT_STACK_SIZE
      then (GRUNT_ERROR_OUTOFBOUNDS, s)
      else (0, s\<lparr>g_stack := (g_stack s)((GRUNT_STACK_SIZE - 1) - g_control_count s := arg),
                 g_control_count := g_control_count s + 1\<rparr>))"

definition grunt_stack_ctl_pop :: "reg \<Rightarrow> grunt_state \<Rightarrow> int \<times> grunt_state" where
  "grunt_stack_ctl_pop p_arg s =
     (if g_control_count s = 0 then (GRUNT_ERROR_OUTOFBOUNDS, s)
      else (0, store p_arg (g_stack s ((GRUNT_STACK_SIZE - 1) - (g_control_count s - 1)))
                 (s\<lparr>g_control_count := g_control_count s - 1\<rparr>)))"


section \<open>The input queue (grunt_input.c)\<close>

text \<open>\<^verbatim>\<open>*((uintN_t *)(&(g_input_queue[g_head_index])))\<close> reads \<open>n\<close> bytes in the byte order of
  the host; the model is the little-endian host of the flight software build, lowest byte
  first.\<close>

fun le_bytes :: "8 word list \<Rightarrow> nat" where
  "le_bytes [] = 0"
| "le_bytes (b # bs) = unat b + 256 * le_bytes bs"

definition read_uint :: "8 word list \<Rightarrow> nat \<Rightarrow> nat \<Rightarrow> grunt_number_t" where
  "read_uint q i n = of_nat (le_bytes (map (\<lambda>k. q ! (i + k)) [0..<n]))"

definition grunt_input_rewind :: "grunt_rep_t \<Rightarrow> grunt_state \<Rightarrow> int \<times> grunt_state" where
  "grunt_input_rewind n s =
     (if n > g_head_index s then (GRUNT_ERROR_OUTOFBOUNDS, s)
      else if n = 0 then (0, s\<lparr>g_head_index := 0\<rparr>)
      else (0, s\<lparr>g_head_index := g_head_index s - n\<rparr>))"

definition grunt_input_init :: "8 word list option \<Rightarrow> grunt_rep_t \<Rightarrow> grunt_state \<Rightarrow> grunt_state" where
  "grunt_input_init p_data sz s =
     snd (grunt_input_rewind 0 (s\<lparr>g_input_queue := p_data, g_input_queue_size := sz\<rparr>))"

definition grunt_input_dequeue :: "reg \<Rightarrow> grunt_rep_t \<Rightarrow> grunt_state \<Rightarrow> int \<times> grunt_state" where
  "grunt_input_dequeue p_v n s =
     (case g_input_queue s of
        None \<Rightarrow> (GRUNT_ERROR_INTERPRETERBUG, s)
      | Some q \<Rightarrow>
          if \<not> (n = 1 \<or> n = 2 \<or> n = 4) then (GRUNT_ERROR_INVALIDLITERAL, s)
          else if unat (g_head_index s) + unat n > unat (g_input_queue_size s)
          then (GRUNT_ERROR_OUTOFBOUNDS, s)
          else if n = 4 \<or> n = 2 \<or> n = 1
          then (0, (store p_v (VNum (read_uint q (unat (g_head_index s)) (unat n))) s)
                     \<lparr>g_head_index := g_head_index s + n\<rparr>)
          else (GRUNT_ERROR_INTERPRETERBUG, store p_v (VNum (val_num (deref p_v s))) s))"

section \<open>The output queue (grunt_output.c)\<close>

text \<open>\<^verbatim>\<open>OUTPUT_QUEUE_SIZE\<close> is \<^verbatim>\<open>CFE_MISSION_EVS_MAX_MESSAGE_LENGTH\<close>, a constant of the cFE
  mission configuration that is not part of this repository. It is the parameter \<open>qsize\<close> of
  every function that depends on it.\<close>

abbreviation (input) NUL :: char where "NUL \<equiv> CHR 0x00"

definition strlen :: "string \<Rightarrow> nat" where
  "strlen str = length (takeWhile (\<lambda>c. c \<noteq> NUL) str)"

text \<open>What a \<^verbatim>\<open>%s\<close> conversion reads from a character array: the bytes before the first
  NUL.\<close>

definition c_string :: "char list \<Rightarrow> string" where
  "c_string buf = takeWhile (\<lambda>c. c \<noteq> NUL) buf"

text \<open>\<^verbatim>\<open>snprintf(string, NUMBER_BUFFER_SIZE, "%u", u)\<close>: the decimal digits of \<open>u\<close>, most
  significant first, no sign, no leading zero. The call returns the number of digits and
  writes at most \<open>NUMBER_BUFFER_SIZE - 1\<close> of them.\<close>

abbreviation (input) NUMBER_BUFFER_SIZE :: nat where "NUMBER_BUFFER_SIZE \<equiv> 16"

fun decimal :: "nat \<Rightarrow> string" where
  "decimal n = (if n < 10 then [''0123456789'' ! n]
                else decimal (n div 10) @ [''0123456789'' ! (n mod 10)])"

declare decimal.simps [simp del]

definition grunt_output_reset :: "nat \<Rightarrow> grunt_state \<Rightarrow> grunt_state" where
  "grunt_output_reset qsize s = s\<lparr>g_output_queue := replicate qsize NUL, g_tail_index := 0\<rparr>"

definition grunt_output_enqueue :: "nat \<Rightarrow> string \<Rightarrow> grunt_rep_t \<Rightarrow> grunt_state \<Rightarrow> int \<times> grunt_state" where
  "grunt_output_enqueue qsize string len s =
     (if int (unat (g_tail_index s)) + int (unat len) > int qsize - 1
      then (GRUNT_ERROR_OUTOFBOUNDS, s)
      else (0, s\<lparr>g_output_queue :=
                   take (unat (g_tail_index s)) (g_output_queue s) @ take (unat len) string @
                   drop (unat (g_tail_index s) + unat len) (g_output_queue s),
                 g_tail_index := g_tail_index s + len\<rparr>))"

definition grunt_output_init :: "nat \<Rightarrow> string list \<Rightarrow> grunt_string_t \<Rightarrow> grunt_state \<Rightarrow> grunt_state" where
  "grunt_output_init qsize string_table num_strings s =
     grunt_output_reset qsize (s\<lparr>g_string_table := string_table, g_num_strings := num_strings\<rparr>)"

definition grunt_output_enqueue_boolean :: "nat \<Rightarrow> grunt_boolean_t \<Rightarrow> grunt_state \<Rightarrow> int \<times> grunt_state" where
  "grunt_output_enqueue_boolean qsize tf s =
     (if tf then grunt_output_enqueue qsize ''true'' 4 s
      else grunt_output_enqueue qsize ''false'' 5 s)"

definition grunt_output_enqueue_number :: "nat \<Rightarrow> grunt_number_t \<Rightarrow> grunt_state \<Rightarrow> int \<times> grunt_state" where
  "grunt_output_enqueue_number qsize u s =
     (let string = take (NUMBER_BUFFER_SIZE - 1) (decimal (unat u));
          len = int (length (decimal (unat u)))
      in if - 1 = len then (GRUNT_ERROR_INTERPRETERBUG, s)
         else if len > int GRUNT_REP_MAX then (GRUNT_ERROR_INTERPRETERBUG, s)
         else grunt_output_enqueue qsize string (of_int len) s)"

text \<open>In \<^verbatim>\<open>GRUNT_REP_MAX < (length = strlen(...))\<close> the value compared is that of the
  16-bit variable after the assignment.\<close>

definition grunt_output_enqueue_string :: "nat \<Rightarrow> grunt_string_t \<Rightarrow> grunt_state \<Rightarrow> int \<times> grunt_state" where
  "grunt_output_enqueue_string qsize string_index s =
     (if \<not> (string_index < g_num_strings s) then (GRUNT_ERROR_INVALIDLITERAL, s)
      else let len = (of_nat (strlen (g_string_table s ! unat string_index)) :: grunt_rep_t)
           in if GRUNT_REP_MAX < unat len then (GRUNT_ERROR_OUTOFBOUNDS, s)
              else grunt_output_enqueue qsize (g_string_table s ! unat string_index) len s)"

definition grunt_output_flush :: "nat \<Rightarrow> grunt_number_t \<Rightarrow> grunt_number_t \<Rightarrow> grunt_state \<Rightarrow> grunt_state" where
  "grunt_output_flush qsize event_type event_id s =
     grunt_output_reset qsize
       (s\<lparr>evs_sent := evs_sent s @ [(event_id, event_type, c_string (g_output_queue s))]\<rparr>)"


section \<open>Stack instructions (grunt_vm_stack.c)\<close>

definition grunt_vm_dup :: "grunt_rep_t \<Rightarrow> grunt_state \<Rightarrow> int \<times> grunt_state" where
  "grunt_vm_dup reps s =
     (if reps < 1 then (GRUNT_ERROR_INVALIDLITERAL, s) else grunt_stack_arg_dup reps s)"

text \<open>The \<^verbatim>\<open>for\<close> loop of \<^verbatim>\<open>grunt_vm_pop\<close> with \<open>k\<close> iterations left.\<close>

fun pop_loop :: "reg \<Rightarrow> nat \<Rightarrow> grunt_state \<Rightarrow> int \<times> grunt_state" where
  "pop_loop p_ra 0 s = (0, s)"
| "pop_loop p_ra (Suc k) s = chk (grunt_stack_arg_pop p_ra s) (pop_loop p_ra k)"

definition grunt_vm_pop :: "reg \<Rightarrow> grunt_rep_t \<Rightarrow> grunt_state \<Rightarrow> int \<times> grunt_state" where
  "grunt_vm_pop p_ra reps s =
     (if reps < 1 then (GRUNT_ERROR_INVALIDLITERAL, s) else pop_loop p_ra (unat reps) s)"

definition grunt_vm_pushb :: "grunt_value_t \<Rightarrow> grunt_state \<Rightarrow> int \<times> grunt_state" where
  "grunt_vm_pushb p_literal s =
     (if type_of p_literal \<noteq> gt_bool then (GRUNT_ERROR_INVALIDLITERAL, s)
      else grunt_stack_arg_push p_literal s)"

definition grunt_vm_pushn :: "grunt_value_t \<Rightarrow> grunt_state \<Rightarrow> int \<times> grunt_state" where
  "grunt_vm_pushn p_literal s =
     (if type_of p_literal \<noteq> gt_num then (GRUNT_ERROR_INVALIDLITERAL, s)
      else grunt_stack_arg_push p_literal s)"

definition grunt_vm_pushs :: "grunt_value_t \<Rightarrow> grunt_state \<Rightarrow> int \<times> grunt_state" where
  "grunt_vm_pushs p_literal s =
     (if type_of p_literal \<noteq> gt_str then (GRUNT_ERROR_INVALIDLITERAL, s)
      else grunt_stack_arg_push p_literal s)"

definition grunt_vm_roll :: "grunt_rep_t \<Rightarrow> grunt_state \<Rightarrow> int \<times> grunt_state" where
  "grunt_vm_roll reps s =
     (if reps < 2 then (GRUNT_ERROR_INVALIDLITERAL, s) else grunt_stack_arg_roll reps s)"

section \<open>Control instructions (grunt_vm_control.c)\<close>

text \<open>The pointer \<^verbatim>\<open>p_pc\<close> of these functions is always \<^verbatim>\<open>&g_pc\<close>; when they run,
  \<^verbatim>\<open>grunt_vm_step\<close> has already incremented \<open>g_pc\<close>.\<close>

definition grunt_vm_call :: "reg \<Rightarrow> grunt_value_t \<Rightarrow> grunt_state \<Rightarrow> int \<times> grunt_state" where
  "grunt_vm_call p_ra p_literal s =
     (if type_of p_literal \<noteq> gt_pc then (GRUNT_ERROR_INVALIDLITERAL, s)
      else if val_pc p_literal < g_pc s then (GRUNT_ERROR_NOLOOPS, s)
      else let s1 = store p_ra (VPC (g_pc s)) s
           in chk (grunt_stack_ctl_push (deref p_ra s1) s1)
                (\<lambda>s2. (0, s2\<lparr>g_pc := val_pc p_literal\<rparr>)))"

definition grunt_vm_halt :: "reg \<Rightarrow> grunt_state \<Rightarrow> int \<times> grunt_state" where
  "grunt_vm_halt p_ra s =
     chk (grunt_stack_arg_pop p_ra s)
       (\<lambda>s1. if type_of (deref p_ra s1) \<noteq> gt_bool then (GRUNT_ERROR_INVALIDARGUMENT, s1)
             else (if val_b (deref p_ra s1) then GRUNT_HALT_TRUE else GRUNT_HALT_FALSE, s1))"

definition grunt_vm_jmpif :: "reg \<Rightarrow> grunt_value_t \<Rightarrow> grunt_state \<Rightarrow> int \<times> grunt_state" where
  "grunt_vm_jmpif p_ra p_literal s =
     (if type_of p_literal \<noteq> gt_pc then (GRUNT_ERROR_INVALIDLITERAL, s)
      else if val_pc p_literal < 2 then (GRUNT_ERROR_INVALIDLITERAL, s)
      else chk (grunt_stack_arg_pop p_ra s)
        (\<lambda>s1. if type_of (deref p_ra s1) \<noteq> gt_bool then (GRUNT_ERROR_INVALIDARGUMENT, s1)
              else if \<not> val_b (deref p_ra s1) then (0, s1)
              else if unat (val_pc p_literal) > UINT16_MAX - unat (g_pc s1)
              then (GRUNT_ERROR_NOPROGRAM, s1)
              else (0, s1\<lparr>g_pc := g_pc s1 + (val_pc p_literal - 1)\<rparr>)))"

definition grunt_vm_return :: "reg \<Rightarrow> grunt_state \<Rightarrow> int \<times> grunt_state" where
  "grunt_vm_return p_ra s =
     chk (grunt_stack_ctl_pop p_ra s) (\<lambda>s1. (0, s1\<lparr>g_pc := val_pc (deref p_ra s1)\<rparr>))"

section \<open>Arithmetic (grunt_vm_arithmetic.c)\<close>

definition grunt_vm_add_sub :: "reg \<Rightarrow> reg \<Rightarrow> bool \<Rightarrow> grunt_state \<Rightarrow> int \<times> grunt_state" where
  "grunt_vm_add_sub p_ra p_rb add_flag s =
     chk (grunt_stack_arg_pop p_rb s)
       (\<lambda>s1. if type_of (deref p_rb s1) \<noteq> gt_num then (GRUNT_ERROR_INVALIDARGUMENT, s1)
        else chk (grunt_stack_arg_pop p_ra s1)
       (\<lambda>s2. if type_of (deref p_ra s2) \<noteq> gt_num then (GRUNT_ERROR_INVALIDARGUMENT, s2)
        else if add_flag then
          (if val_num (deref p_rb s2) > GRUNT_NUM_MAX - val_num (deref p_ra s2)
           then (GRUNT_ERROR_OUTOFBOUNDS, s2)
           else let s3 = store p_ra (VNum (val_num (deref p_ra s2) + val_num (deref p_rb s2))) s2
                in grunt_stack_arg_push (deref p_ra s3) s3)
        else
          (if val_num (deref p_ra s2) < val_num (deref p_rb s2)
           then (GRUNT_ERROR_OUTOFBOUNDS, s2)
           else let s3 = store p_ra (VNum (val_num (deref p_ra s2) - val_num (deref p_rb s2))) s2
                in grunt_stack_arg_push (deref p_ra s3) s3)))"


section \<open>Logic and comparison (grunt_vm_logic.c)\<close>

text \<open>The \<^verbatim>\<open>for (i = 1; i < n; i++)\<close> loops of \<^verbatim>\<open>grunt_vm_and_or\<close> and \<^verbatim>\<open>grunt_vm_eq\<close> with
  \<open>k\<close> iterations left; the loop of \<^verbatim>\<open>grunt_vm_eq\<close> carries the local \<^verbatim>\<open>equal_flag\<close>.\<close>

fun and_or_loop :: "reg \<Rightarrow> reg \<Rightarrow> bool \<Rightarrow> nat \<Rightarrow> grunt_state \<Rightarrow> int \<times> grunt_state" where
  "and_or_loop p_ra p_rb and_flag 0 s = (0, s)"
| "and_or_loop p_ra p_rb and_flag (Suc k) s =
     chk (grunt_stack_arg_pop p_rb s)
       (\<lambda>s1. if type_of (deref p_rb s1) \<noteq> gt_bool then (GRUNT_ERROR_INVALIDARGUMENT, s1)
        else and_or_loop p_ra p_rb and_flag k
               (store p_ra (VBool (if and_flag
                                   then val_b (deref p_ra s1) \<and> val_b (deref p_rb s1)
                                   else val_b (deref p_ra s1) \<or> val_b (deref p_rb s1))) s1))"

definition grunt_vm_and_or :: "reg \<Rightarrow> reg \<Rightarrow> grunt_rep_t \<Rightarrow> bool \<Rightarrow> grunt_state \<Rightarrow> int \<times> grunt_state" where
  "grunt_vm_and_or p_ra p_rb n and_flag s =
     (if n < 2 then (GRUNT_ERROR_INVALIDLITERAL, s)
      else chk (grunt_stack_arg_pop p_ra s)
        (\<lambda>s1. if type_of (deref p_ra s1) \<noteq> gt_bool then (GRUNT_ERROR_INVALIDARGUMENT, s1)
         else chk (and_or_loop p_ra p_rb and_flag (unat n - 1) s1)
        (\<lambda>s2. grunt_stack_arg_push (deref p_ra s2) s2)))"

fun eq_loop :: "reg \<Rightarrow> reg \<Rightarrow> nat \<Rightarrow> bool \<times> grunt_state \<Rightarrow> int \<times> bool \<times> grunt_state" where
  "eq_loop p_ra p_rb 0 fs = (0, fs)"
| "eq_loop p_ra p_rb (Suc k) (equal_flag, s) =
     (case grunt_stack_arg_pop p_rb s of (status, s1) \<Rightarrow>
        if status \<noteq> 0 then (status, equal_flag, s1)
        else if type_of (deref p_rb s1) \<noteq> gt_num
        then (GRUNT_ERROR_INVALIDARGUMENT, equal_flag, s1)
        else eq_loop p_ra p_rb k
               (if val_num (deref p_ra s1) \<noteq> val_num (deref p_rb s1) then False else equal_flag,
                s1))"

definition grunt_vm_eq :: "reg \<Rightarrow> reg \<Rightarrow> grunt_rep_t \<Rightarrow> grunt_state \<Rightarrow> int \<times> grunt_state" where
  "grunt_vm_eq p_ra p_rb n s =
     (if n < 2 then (GRUNT_ERROR_INVALIDLITERAL, s)
      else chk (grunt_stack_arg_pop p_ra s)
        (\<lambda>s1. if type_of (deref p_ra s1) \<noteq> gt_num then (GRUNT_ERROR_INVALIDARGUMENT, s1)
         else case eq_loop p_ra p_rb (unat n - 1) (True, s1) of (status, equal_flag, s2) \<Rightarrow>
           if status \<noteq> 0 then (status, s2)
           else let s3 = store p_ra (VBool equal_flag) s2
                in grunt_stack_arg_push (deref p_ra s3) s3))"

definition grunt_vm_lt_gt :: "reg \<Rightarrow> reg \<Rightarrow> bool \<Rightarrow> grunt_state \<Rightarrow> int \<times> grunt_state" where
  "grunt_vm_lt_gt p_ra p_rb lt_flag s =
     chk (grunt_stack_arg_pop p_rb s)
       (\<lambda>s1. if type_of (deref p_rb s1) \<noteq> gt_num then (GRUNT_ERROR_INVALIDARGUMENT, s1)
        else chk (grunt_stack_arg_pop p_ra s1)
       (\<lambda>s2. if type_of (deref p_ra s2) \<noteq> gt_num then (GRUNT_ERROR_INVALIDARGUMENT, s2)
        else let result = (if lt_flag then val_num (deref p_ra s2) < val_num (deref p_rb s2)
                           else val_num (deref p_ra s2) > val_num (deref p_rb s2));
                 s3 = store p_ra (VBool result) s2
             in grunt_stack_arg_push (deref p_ra s3) s3))"

definition grunt_vm_not :: "reg \<Rightarrow> grunt_state \<Rightarrow> int \<times> grunt_state" where
  "grunt_vm_not p_ra s =
     chk (grunt_stack_arg_pop p_ra s)
       (\<lambda>s1. if type_of (deref p_ra s1) \<noteq> gt_bool then (GRUNT_ERROR_INVALIDARGUMENT, s1)
        else let s2 = store p_ra (VBool (\<not> val_b (deref p_ra s1))) s1
             in grunt_stack_arg_push (deref p_ra s2) s2)"

section \<open>Input and output instructions (grunt_vm_io.c)\<close>

definition grunt_vm_flush :: "nat \<Rightarrow> reg \<Rightarrow> reg \<Rightarrow> grunt_state \<Rightarrow> int \<times> grunt_state" where
  "grunt_vm_flush qsize p_ra p_rb s =
     chk (grunt_stack_arg_pop p_ra s)
       (\<lambda>s1. if type_of (deref p_ra s1) \<noteq> gt_num then (GRUNT_ERROR_INVALIDARGUMENT, s1)
        else chk (grunt_stack_arg_pop p_rb s1)
       (\<lambda>s2. if type_of (deref p_rb s2) \<noteq> gt_num then (GRUNT_ERROR_INVALIDARGUMENT, s2)
        else (0, grunt_output_flush qsize (val_num (deref p_ra s2)) (val_num (deref p_rb s2)) s2)))"

definition grunt_vm_input :: "reg \<Rightarrow> grunt_rep_t \<Rightarrow> grunt_state \<Rightarrow> int \<times> grunt_state" where
  "grunt_vm_input p_ra n s =
     (if n \<noteq> 4 \<and> n \<noteq> 2 \<and> n \<noteq> 1 then (GRUNT_ERROR_INVALIDLITERAL, s)
      else chk (grunt_input_dequeue p_ra n s) (\<lambda>s1. grunt_stack_arg_push (deref p_ra s1) s1))"

definition grunt_vm_output :: "nat \<Rightarrow> reg \<Rightarrow> grunt_state \<Rightarrow> int \<times> grunt_state" where
  "grunt_vm_output qsize p_ra s =
     chk (grunt_stack_arg_pop p_ra s)
       (\<lambda>s1. case type_of (deref p_ra s1) of
                gt_bool \<Rightarrow> grunt_output_enqueue_boolean qsize (val_b (deref p_ra s1)) s1
              | gt_num \<Rightarrow> grunt_output_enqueue_number qsize (val_num (deref p_ra s1)) s1
              | gt_str \<Rightarrow> grunt_output_enqueue_string qsize (val_str (deref p_ra s1)) s1
              | gt_pc \<Rightarrow> (GRUNT_ERROR_INVALIDARGUMENT, s1))"

definition grunt_vm_rewind :: "grunt_rep_t \<Rightarrow> grunt_state \<Rightarrow> int \<times> grunt_state" where
  "grunt_vm_rewind reps s = grunt_input_rewind reps s"


section \<open>The interpreter (grunt.c)\<close>

definition grunt_vm_step :: "nat \<Rightarrow> grunt_instruction_t \<Rightarrow> grunt_state \<Rightarrow> int \<times> grunt_state" where
  "grunt_vm_step qsize p_i s0 =
     (let s = s0\<lparr>g_pc := g_pc s0 + 1\<rparr> in
      if op p_i = GRUNT_OP_ADD then grunt_vm_add_sub RA RB True s
      else if op p_i = GRUNT_OP_AND then grunt_vm_and_or RA RB (arg_rep p_i) True s
      else if op p_i = GRUNT_OP_CALL then grunt_vm_call RA (arg_lit p_i) s
      else if op p_i = GRUNT_OP_DUP then grunt_vm_dup (arg_rep p_i) s
      else if op p_i = GRUNT_OP_EQ then grunt_vm_eq RA RB (arg_rep p_i) s
      else if op p_i = GRUNT_OP_FLUSH then grunt_vm_flush qsize RA RB s
      else if op p_i = GRUNT_OP_GT then grunt_vm_lt_gt RA RB False s
      else if op p_i = GRUNT_OP_HALT then grunt_vm_halt RA s
      else if op p_i = GRUNT_OP_INPUT then grunt_vm_input RA (arg_rep p_i) s
      else if op p_i = GRUNT_OP_JMPIF then grunt_vm_jmpif RA (arg_lit p_i) s
      else if op p_i = GRUNT_OP_LT then grunt_vm_lt_gt RA RB True s
      else if op p_i = GRUNT_OP_NOT then grunt_vm_not RA s
      else if op p_i = GRUNT_OP_OUTPUT then grunt_vm_output qsize RA s
      else if op p_i = GRUNT_OP_OR then grunt_vm_and_or RA RB (arg_rep p_i) False s
      else if op p_i = GRUNT_OP_POP then grunt_vm_pop RA (arg_rep p_i) s
      else if op p_i = GRUNT_OP_PUSHB then grunt_vm_pushb (arg_lit p_i) s
      else if op p_i = GRUNT_OP_PUSHN then grunt_vm_pushn (arg_lit p_i) s
      else if op p_i = GRUNT_OP_PUSHS then grunt_vm_pushs (arg_lit p_i) s
      else if op p_i = GRUNT_OP_RETURN then grunt_vm_return RA s
      else if op p_i = GRUNT_OP_REWIND then grunt_vm_rewind (arg_rep p_i) s
      else if op p_i = GRUNT_OP_ROLL then grunt_vm_roll (arg_rep p_i) s
      else if op p_i = GRUNT_OP_SUB then grunt_vm_add_sub RA RB False s
      else (GRUNT_ERROR_INVALIDOPCODE, s))"

definition grunt_vm_init :: "grunt_state \<Rightarrow> grunt_state" where
  "grunt_vm_init s = s\<lparr>g_pc := 0\<rparr>"

text \<open>The \<^verbatim>\<open>do ... while\<close> loop of \<^verbatim>\<open>GRUNT_Run\<close>. The result is \<open>None\<close> when the loop does not
  end, and the last status with the last state otherwise.\<close>

partial_function (option) run_loop ::
  "nat \<Rightarrow> grunt_instruction_t list \<Rightarrow> grunt_pc_t \<Rightarrow> grunt_state \<Rightarrow> (int \<times> grunt_state) option" where
  "run_loop qsize program num_instructions s =
     (if \<not> (g_pc s < num_instructions) then Some (GRUNT_ERROR_NOPROGRAM, s)
      else case grunt_vm_step qsize (program ! unat (g_pc s)) s of (status, s1) \<Rightarrow>
             if status = 0 then run_loop qsize program num_instructions s1
             else Some (status, s1))"

text \<open>\<^verbatim>\<open>GRUNT_Run\<close> returns the status; the model returns the state with it. The call of
  \<^verbatim>\<open>grunt_vm_error\<close> at the end only prints a debug line to the console and is left out.\<close>

definition GRUNT_Run ::
  "nat \<Rightarrow> grunt_instruction_t list \<Rightarrow> grunt_pc_t \<Rightarrow> 8 word list option \<Rightarrow> grunt_rep_t \<Rightarrow>
   string list \<Rightarrow> grunt_string_t \<Rightarrow> grunt_state \<Rightarrow> (int \<times> grunt_state) option" where
  "GRUNT_Run qsize program num_instructions p_data data_size string_table num_strings s =
     run_loop qsize program num_instructions
       (grunt_vm_init
         (grunt_output_init qsize string_table num_strings
           (grunt_input_init p_data data_size
             (grunt_stack_init s))))"


text \<open>The state of the file-scope variables when the process starts: C zero-initialises
  statics, so every slot is a \<^verbatim>\<open>gt_bool\<close> with value false, the pointers are null and the
  output array of \<open>qsize\<close> bytes is zero.\<close>

definition static_init :: "nat \<Rightarrow> grunt_state" where
  "static_init qsize =
     \<lparr>g_ra = VBool False, g_rb = VBool False, g_pc = 0,
      g_stack = (\<lambda>i. VBool False), g_argument_count = 0, g_control_count = 0,
      g_input_queue = None, g_input_queue_size = 0, g_head_index = 0,
      g_string_table = [], g_num_strings = 0,
      g_output_queue = replicate qsize NUL, g_tail_index = 0,
      evs_sent = []\<rparr>"

text \<open>The invariant of \<^verbatim>\<open>grunt_stack.c\<close>: the two stacks fit into the array together.\<close>

definition stack_ok :: "grunt_state \<Rightarrow> bool" where
  "stack_ok s \<longleftrightarrow> g_argument_count s + g_control_count s \<le> GRUNT_STACK_SIZE"


text \<open>The start state after pushing the values \<open>vs\<close> on the argument stack, the first of
  \<open>vs\<close> at the bottom.\<close>

definition stack_of :: "nat \<Rightarrow> grunt_value_t list \<Rightarrow> grunt_state" where
  "stack_of qsize vs = fold (\<lambda>v s. snd (grunt_stack_arg_push v s)) vs (static_init qsize)"

section \<open>The table and its validator program (vs_tablestruct.h, vs_eventids.h, vsvf.h)\<close>

abbreviation (input) VS_PARM_UNUSED :: grunt_number_t where "VS_PARM_UNUSED \<equiv> 0x00"
abbreviation (input) VS_PARM_APE :: grunt_number_t where "VS_PARM_APE \<equiv> 0x01"
abbreviation (input) VS_PARM_BAT :: grunt_number_t where "VS_PARM_BAT \<equiv> 0x02"
abbreviation (input) VS_PARM_CAT :: grunt_number_t where "VS_PARM_CAT \<equiv> 0x04"
abbreviation (input) VS_PARM_DOG :: grunt_number_t where "VS_PARM_DOG \<equiv> 0x08"
abbreviation (input) VS_PARM_NORTH :: grunt_number_t where "VS_PARM_NORTH \<equiv> 0x10"
abbreviation (input) VS_PARM_SOUTH :: grunt_number_t where "VS_PARM_SOUTH \<equiv> 0x20"
abbreviation (input) VS_PARM_EAST :: grunt_number_t where "VS_PARM_EAST \<equiv> 0x40"
abbreviation (input) VS_PARM_WEST :: grunt_number_t where "VS_PARM_WEST \<equiv> 0x80"

abbreviation (input) VS_PARM_ANIMAL_MIN :: grunt_number_t where "VS_PARM_ANIMAL_MIN \<equiv> 0x00000010"
abbreviation (input) VS_PARM_ANIMAL_MAX :: grunt_number_t where "VS_PARM_ANIMAL_MAX \<equiv> 0x00001000"
abbreviation (input) VS_PARM_DIRECTION_MIN :: grunt_number_t where "VS_PARM_DIRECTION_MIN \<equiv> 0x00010000"
abbreviation (input) VS_PARM_DIRECTION_MAX :: grunt_number_t where "VS_PARM_DIRECTION_MAX \<equiv> 0x01000000"

abbreviation (input) VS_VALIDATION_INF_EID :: grunt_number_t where "VS_VALIDATION_INF_EID \<equiv> 0x0008"
abbreviation (input) VS_TBL_ZERO_ERR_EID :: grunt_number_t where "VS_TBL_ZERO_ERR_EID \<equiv> 0x2001"
abbreviation (input) VS_TBL_PARM_ERR_EID :: grunt_number_t where "VS_TBL_PARM_ERR_EID \<equiv> 0x2002"
abbreviation (input) VS_TBL_PAD_ERR_EID :: grunt_number_t where "VS_TBL_PAD_ERR_EID \<equiv> 0x2004"
abbreviation (input) VS_TBL_LBND_ERR_EID :: grunt_number_t where "VS_TBL_LBND_ERR_EID \<equiv> 0x2008"
abbreviation (input) VS_TBL_HBND_ERR_EID :: grunt_number_t where "VS_TBL_HBND_ERR_EID \<equiv> 0x2010"
abbreviation (input) VS_TBL_ORDER_ERR_EID :: grunt_number_t where "VS_TBL_ORDER_ERR_EID \<equiv> 0x2020"
abbreviation (input) VS_TBL_EXTRA_ERR_EID :: grunt_number_t where "VS_TBL_EXTRA_ERR_EID \<equiv> 0x2040"
abbreviation (input) VS_TBL_REDEF_ERR_EID :: grunt_number_t where "VS_TBL_REDEF_ERR_EID \<equiv> 0x2080"

text \<open>\<^verbatim>\<open>vs_entry_t\<close> is a byte, three bytes of padding and two 32-bit words: 12 bytes. The table
  \<^verbatim>\<open>vs_table_t\<close> is an array of \<^verbatim>\<open>VS_TABLE_NUM_ENTRIES\<close> entries.\<close>

abbreviation (input) VS_TABLE_NUM_ENTRIES :: nat where "VS_TABLE_NUM_ENTRIES \<equiv> 4"

definition sizeof_vs_entry_t :: nat where
  "sizeof_vs_entry_t = 1 + 3 + 4 + 4"

definition sizeof_vs_table_t :: nat where
  "sizeof_vs_table_t = VS_TABLE_NUM_ENTRIES * sizeof_vs_entry_t"

definition vsvf_strings :: "string list" where
  "vsvf_strings =
     [''Table image entries: '', '' valid, '', '' invalid, '', '' unused'',
      ''Table entry '', '' parm '', '' not zeroed'', '' invalid Parm ID'',
      '' padding not zeroed'', '' invalid low bound'', '' invalid high bound'',
      '' invalid bound order'', '' follows an unused entry'', '' redefines earlier entry'',
      ''Unused'', ''Ape'', ''Bat'', ''Cat'', ''Dog'', ''North'', ''South'', ''East'', ''West'',
      ''Unknown'']"

abbreviation (input) VSVF_NUM_STRINGS :: grunt_string_t where "VSVF_NUM_STRINGS \<equiv> 24"

text \<open>The addresses of the subroutines, as the macros of \<^verbatim>\<open>vsvf.h\<close> compute them.\<close>

definition MAIN :: grunt_pc_t where "MAIN = 0"
definition MAIN_LOC :: grunt_pc_t where "MAIN_LOC = 33"
definition VALIDATE_ENTRY :: grunt_pc_t where "VALIDATE_ENTRY = MAIN + MAIN_LOC"
definition VALIDATE_ENTRY_LOC :: grunt_pc_t where "VALIDATE_ENTRY_LOC = 52"
definition IS_UNUSED :: grunt_pc_t where "IS_UNUSED = VALIDATE_ENTRY + VALIDATE_ENTRY_LOC"
definition IS_UNUSED_LOC :: grunt_pc_t where "IS_UNUSED_LOC = 3"
definition IS_ANIMAL :: grunt_pc_t where "IS_ANIMAL = IS_UNUSED + IS_UNUSED_LOC"
definition IS_ANIMAL_LOC :: grunt_pc_t where "IS_ANIMAL_LOC = 16"
definition IS_DIRECTION :: grunt_pc_t where "IS_DIRECTION = IS_ANIMAL + IS_ANIMAL_LOC"
definition IS_DIRECTION_LOC :: grunt_pc_t where "IS_DIRECTION_LOC = 16"
definition VALIDATE_UNUSED :: grunt_pc_t where "VALIDATE_UNUSED = IS_DIRECTION + IS_DIRECTION_LOC"
definition VALIDATE_UNUSED_LOC :: grunt_pc_t where "VALIDATE_UNUSED_LOC = 18"
definition VALIDATE_INUSE :: grunt_pc_t where "VALIDATE_INUSE = VALIDATE_UNUSED + VALIDATE_UNUSED_LOC"
definition VALIDATE_INUSE_LOC :: grunt_pc_t where "VALIDATE_INUSE_LOC = 26"
definition VALIDATE_PAD :: grunt_pc_t where "VALIDATE_PAD = VALIDATE_INUSE + VALIDATE_INUSE_LOC"
definition VALIDATE_PAD_LOC :: grunt_pc_t where "VALIDATE_PAD_LOC = 17"
definition VALIDATE_BOUNDS :: grunt_pc_t where "VALIDATE_BOUNDS = VALIDATE_PAD + VALIDATE_PAD_LOC"
definition VALIDATE_BOUNDS_LOC :: grunt_pc_t where "VALIDATE_BOUNDS_LOC = 26"
definition VALIDATE_RANGE :: grunt_pc_t where "VALIDATE_RANGE = VALIDATE_BOUNDS + VALIDATE_BOUNDS_LOC"
definition VALIDATE_RANGE_LOC :: grunt_pc_t where "VALIDATE_RANGE_LOC = 15"
definition VALIDATE_ORDER :: grunt_pc_t where "VALIDATE_ORDER = VALIDATE_RANGE + VALIDATE_RANGE_LOC"
definition VALIDATE_ORDER_LOC :: grunt_pc_t where "VALIDATE_ORDER_LOC = 13"
definition VALIDATE_EXTRA :: grunt_pc_t where "VALIDATE_EXTRA = VALIDATE_ORDER + VALIDATE_ORDER_LOC"
definition VALIDATE_EXTRA_LOC :: grunt_pc_t where "VALIDATE_EXTRA_LOC = 15"
definition VALIDATE_REDEF :: grunt_pc_t where "VALIDATE_REDEF = VALIDATE_EXTRA + VALIDATE_EXTRA_LOC"
definition VALIDATE_REDEF_LOC :: grunt_pc_t where "VALIDATE_REDEF_LOC = 26"
definition HANDLE_PARMERR :: grunt_pc_t where "HANDLE_PARMERR = VALIDATE_REDEF + VALIDATE_REDEF_LOC"
definition HANDLE_PARMERR_LOC :: grunt_pc_t where "HANDLE_PARMERR_LOC = 10"
definition INC_UNUSED :: grunt_pc_t where "INC_UNUSED = HANDLE_PARMERR + HANDLE_PARMERR_LOC"
definition INC_UNUSED_LOC :: grunt_pc_t where "INC_UNUSED_LOC = 6"
definition INC_VALID :: grunt_pc_t where "INC_VALID = INC_UNUSED + INC_UNUSED_LOC"
definition INC_VALID_LOC :: grunt_pc_t where "INC_VALID_LOC = 5"
definition COMPUTE_INVALID :: grunt_pc_t where "COMPUTE_INVALID = INC_VALID + INC_VALID_LOC"
definition COMPUTE_INVALID_LOC :: grunt_pc_t where "COMPUTE_INVALID_LOC = 7"
definition COMPUTE_RESULT :: grunt_pc_t where "COMPUTE_RESULT = COMPUTE_INVALID + COMPUTE_INVALID_LOC"
definition COMPUTE_RESULT_LOC :: grunt_pc_t where "COMPUTE_RESULT_LOC = 7"
definition EMIT_INFO :: grunt_pc_t where "EMIT_INFO = COMPUTE_RESULT + COMPUTE_RESULT_LOC"
definition EMIT_INFO_LOC :: grunt_pc_t where "EMIT_INFO_LOC = 15"
definition EMIT_ERROR_PARMERR :: grunt_pc_t where "EMIT_ERROR_PARMERR = EMIT_INFO + EMIT_INFO_LOC"
definition EMIT_ERROR_PARMERR_LOC :: grunt_pc_t where "EMIT_ERROR_PARMERR_LOC = 9"
definition EMIT_ERROR :: grunt_pc_t where "EMIT_ERROR = EMIT_ERROR_PARMERR + EMIT_ERROR_PARMERR_LOC"
definition EMIT_ERROR_LOC :: grunt_pc_t where "EMIT_ERROR_LOC = 11"
definition PARM_TO_STR :: grunt_pc_t where "PARM_TO_STR = EMIT_ERROR + EMIT_ERROR_LOC"
definition PARM_TO_STR_LOC :: grunt_pc_t where "PARM_TO_STR_LOC = 75"
definition VSVF_NUM_INSTRUCTIONS :: grunt_pc_t where "VSVF_NUM_INSTRUCTIONS = PARM_TO_STR + PARM_TO_STR_LOC"

text \<open>The instructions of \<^verbatim>\<open>vsvf_program\<close>, one list for each subroutine in the order of the
  array. \<^verbatim>\<open>CFE_EVS_EventType_INFORMATION\<close> and \<^verbatim>\<open>CFE_EVS_EventType_ERROR\<close> are constants of cFE
  that are not part of this repository; they are the parameters \<open>etype_information\<close> and
  \<open>etype_error\<close>.\<close>

definition code_MAIN :: "grunt_instruction_t list" where
  "code_MAIN =
     [PUSHN 0, PUSHN 0, PUSHN VS_PARM_UNUSED, PUSHN VS_PARM_UNUSED, PUSHN VS_PARM_UNUSED,
      PUSHN 1, CALL VALIDATE_ENTRY, DUP 1, ROLL 4, DUP 1, ROLL 4, PUSHN VS_PARM_UNUSED,
      PUSHN VS_PARM_UNUSED, PUSHN 2, CALL VALIDATE_ENTRY, DUP 1, ROLL 5, ROLL 3, ROLL 4,
      ROLL 4, PUSHN VS_PARM_UNUSED, PUSHN 3, CALL VALIDATE_ENTRY, ROLL 3, ROLL 5, ROLL 5,
      PUSHN 4, CALL VALIDATE_ENTRY, POP 1, CALL COMPUTE_INVALID, CALL COMPUTE_RESULT,
      CALL EMIT_INFO, HALT]"

definition code_VALIDATE_ENTRY :: "grunt_instruction_t list" where
  "code_VALIDATE_ENTRY =
     [INPUT 1, DUP 1, ROLL 6, DUP 1, CALL IS_UNUSED, NOT, JMPIF 9, ROLL 5, ROLL 5, POP 3,
      CALL VALIDATE_UNUSED, JMPIF 2, RETURN, CALL INC_UNUSED, RETURN, ROLL 8, ROLL 8, ROLL 8,
      ROLL 8, ROLL 8, ROLL 8, ROLL 8, DUP 1, ROLL 9, ROLL 3, DUP 1, CALL IS_ANIMAL, NOT,
      JMPIF 8, PUSHN VS_PARM_ANIMAL_MAX, PUSHN VS_PARM_ANIMAL_MIN, CALL VALIDATE_INUSE,
      JMPIF 2, RETURN, CALL INC_VALID, RETURN, DUP 1, CALL IS_DIRECTION, NOT, JMPIF 8,
      PUSHN VS_PARM_DIRECTION_MAX, PUSHN VS_PARM_DIRECTION_MIN, CALL VALIDATE_INUSE, JMPIF 2,
      RETURN, CALL INC_VALID, RETURN, POP 1, ROLL 5, POP 4, CALL HANDLE_PARMERR, RETURN]"

definition code_IS_UNUSED :: "grunt_instruction_t list" where
  "code_IS_UNUSED =
     [PUSHN VS_PARM_UNUSED, EQ 2, RETURN]"

definition code_IS_ANIMAL :: "grunt_instruction_t list" where
  "code_IS_ANIMAL =
     [DUP 1, PUSHN VS_PARM_APE, EQ 2, ROLL 2, DUP 1, PUSHN VS_PARM_BAT, EQ 2, ROLL 2, DUP 1,
      PUSHN VS_PARM_CAT, EQ 2, ROLL 2, PUSHN VS_PARM_DOG, EQ 2, OR 4, RETURN]"

definition code_IS_DIRECTION :: "grunt_instruction_t list" where
  "code_IS_DIRECTION =
     [DUP 1, PUSHN VS_PARM_NORTH, EQ 2, ROLL 2, DUP 1, PUSHN VS_PARM_SOUTH, EQ 2, ROLL 2,
      DUP 1, PUSHN VS_PARM_EAST, EQ 2, ROLL 2, PUSHN VS_PARM_WEST, EQ 2, OR 4, RETURN]"

definition code_VALIDATE_UNUSED :: "grunt_instruction_t list" where
  "code_VALIDATE_UNUSED =
     [INPUT 1, INPUT 2, INPUT 4, INPUT 4, PUSHN 0, EQ 5, JMPIF 9, ROLL 2,
      PUSHN VS_TBL_ZERO_ERR_EID, ROLL 3, PUSHS 6, ROLL 3, CALL EMIT_ERROR, PUSHB False, RETURN,
      POP 2, PUSHB True, RETURN]"

definition code_VALIDATE_INUSE :: "grunt_instruction_t list" where
  "code_VALIDATE_INUSE =
     [ROLL 8, ROLL 8, DUP 2, CALL VALIDATE_PAD, ROLL 9, DUP 2, ROLL 10, ROLL 10, ROLL 10,
      ROLL 10, ROLL 10, ROLL 10, ROLL 10, ROLL 10, CALL VALIDATE_BOUNDS, ROLL 7, DUP 2, ROLL 5,
      ROLL 5, ROLL 3, ROLL 3, CALL VALIDATE_EXTRA, ROLL 7, CALL VALIDATE_REDEF, AND 4, RETURN]"

definition code_VALIDATE_PAD :: "grunt_instruction_t list" where
  "code_VALIDATE_PAD =
     [INPUT 1, INPUT 2, PUSHN 0, EQ 3, NOT, JMPIF 4, POP 2, PUSHB True, RETURN, ROLL 2,
      PUSHN VS_TBL_PAD_ERR_EID, ROLL 3, PUSHS 8, ROLL 3, CALL EMIT_ERROR, PUSHB False, RETURN]"

definition code_VALIDATE_BOUNDS :: "grunt_instruction_t list" where
  "code_VALIDATE_BOUNDS =
     [DUP 4, INPUT 4, DUP 1, ROLL 10, PUSHN VS_TBL_LBND_ERR_EID, ROLL 6, PUSHS 9, ROLL 6,
      CALL VALIDATE_RANGE, ROLL 6, DUP 4, INPUT 4, DUP 1, ROLL 11, PUSHN VS_TBL_HBND_ERR_EID,
      ROLL 6, PUSHS 10, ROLL 6, CALL VALIDATE_RANGE, ROLL 8, POP 2, ROLL 4, ROLL 4,
      CALL VALIDATE_ORDER, AND 3, RETURN]"

definition code_VALIDATE_RANGE :: "grunt_instruction_t list" where
  "code_VALIDATE_RANGE =
     [DUP 1, ROLL 4, ROLL 2, LT, ROLL 3, GT, OR 2, JMPIF 4, POP 4, PUSHB True, RETURN, ROLL 2,
      CALL EMIT_ERROR, PUSHB False, RETURN]"

definition code_VALIDATE_ORDER :: "grunt_instruction_t list" where
  "code_VALIDATE_ORDER =
     [LT, JMPIF 4, POP 2, PUSHB True, RETURN, ROLL 2, PUSHS 11, ROLL 3,
      PUSHN VS_TBL_ORDER_ERR_EID, ROLL 4, CALL EMIT_ERROR, PUSHB False, RETURN]"

definition code_VALIDATE_EXTRA :: "grunt_instruction_t list" where
  "code_VALIDATE_EXTRA =
     [PUSHN 0, EQ 2, NOT, JMPIF 4, POP 2, PUSHB True, RETURN, ROLL 2, PUSHS 12, ROLL 3,
      PUSHN VS_TBL_EXTRA_ERR_EID, ROLL 4, CALL EMIT_ERROR, PUSHB False, RETURN]"

definition code_VALIDATE_REDEF :: "grunt_instruction_t list" where
  "code_VALIDATE_REDEF =
     [DUP 1, ROLL 5, DUP 1, ROLL 4, DUP 1, ROLL 3, ROLL 8, ROLL 8, EQ 2, ROLL 5, EQ 2, ROLL 3,
      EQ 2, OR 3, JMPIF 4, POP 2, PUSHB True, RETURN, ROLL 2, PUSHS 13, ROLL 3,
      PUSHN VS_TBL_REDEF_ERR_EID, ROLL 4, CALL EMIT_ERROR, PUSHB False, RETURN]"

definition code_HANDLE_PARMERR :: "grunt_instruction_t list" where
  "code_HANDLE_PARMERR =
     [INPUT 1, POP 1, INPUT 2, POP 1, INPUT 4, POP 1, INPUT 4, POP 1, CALL EMIT_ERROR_PARMERR,
      RETURN]"

definition code_INC_UNUSED :: "grunt_instruction_t list" where
  "code_INC_UNUSED =
     [ROLL 3, ROLL 3, PUSHN 1, ADD, ROLL 3, RETURN]"

definition code_INC_VALID :: "grunt_instruction_t list" where
  "code_INC_VALID =
     [ROLL 2, PUSHN 1, ADD, ROLL 2, RETURN]"

definition code_COMPUTE_INVALID :: "grunt_instruction_t list" where
  "code_COMPUTE_INVALID =
     [DUP 2, ADD, PUSHN 4, ROLL 2, SUB, ROLL 2, RETURN]"

definition code_COMPUTE_RESULT :: "grunt_instruction_t list" where
  "code_COMPUTE_RESULT =
     [ROLL 2, DUP 1, PUSHN 0, EQ 2, ROLL 4, ROLL 2, RETURN]"

definition code_EMIT_INFO :: "grunt_number_t \<Rightarrow> grunt_instruction_t list" where
  "code_EMIT_INFO etype_information =
     [PUSHS 0, OUTPUT, OUTPUT, PUSHS 1, OUTPUT, OUTPUT, PUSHS 2, OUTPUT, OUTPUT, PUSHS 3,
      OUTPUT, PUSHN VS_VALIDATION_INF_EID, PUSHN etype_information, FLUSH, RETURN]"

definition code_EMIT_ERROR_PARMERR :: "grunt_number_t \<Rightarrow> grunt_instruction_t list" where
  "code_EMIT_ERROR_PARMERR etype_error =
     [PUSHS 4, OUTPUT, OUTPUT, PUSHS 7, OUTPUT, PUSHN VS_TBL_PARM_ERR_EID, PUSHN etype_error,
      FLUSH, RETURN]"

definition code_EMIT_ERROR :: "grunt_number_t \<Rightarrow> grunt_instruction_t list" where
  "code_EMIT_ERROR etype_error =
     [PUSHS 4, OUTPUT, OUTPUT, PUSHS 5, OUTPUT, CALL PARM_TO_STR, OUTPUT, OUTPUT,
      PUSHN etype_error, FLUSH, RETURN]"

definition code_PARM_TO_STR :: "grunt_instruction_t list" where
  "code_PARM_TO_STR =
     [DUP 1, PUSHN VS_PARM_UNUSED, EQ 2, NOT, JMPIF 4, POP 1, PUSHS 14, RETURN, DUP 1,
      PUSHN VS_PARM_APE, EQ 2, NOT, JMPIF 4, POP 1, PUSHS 15, RETURN, DUP 1, PUSHN VS_PARM_BAT,
      EQ 2, NOT, JMPIF 4, POP 1, PUSHS 16, RETURN, DUP 1, PUSHN VS_PARM_CAT, EQ 2, NOT,
      JMPIF 4, POP 1, PUSHS 17, RETURN, DUP 1, PUSHN VS_PARM_DOG, EQ 2, NOT, JMPIF 4, POP 1,
      PUSHS 18, RETURN, DUP 1, PUSHN VS_PARM_NORTH, EQ 2, NOT, JMPIF 4, POP 1, PUSHS 19,
      RETURN, DUP 1, PUSHN VS_PARM_SOUTH, EQ 2, NOT, JMPIF 4, POP 1, PUSHS 20, RETURN, DUP 1,
      PUSHN VS_PARM_EAST, EQ 2, NOT, JMPIF 4, POP 1, PUSHS 21, RETURN, DUP 1,
      PUSHN VS_PARM_WEST, EQ 2, NOT, JMPIF 4, POP 1, PUSHS 22, RETURN, POP 1, PUSHS 23, RETURN]"

definition vsvf_program :: "grunt_number_t \<Rightarrow> grunt_number_t \<Rightarrow> grunt_instruction_t list" where
  "vsvf_program etype_information etype_error =
     code_MAIN @
     code_VALIDATE_ENTRY @
     code_IS_UNUSED @
     code_IS_ANIMAL @
     code_IS_DIRECTION @
     code_VALIDATE_UNUSED @
     code_VALIDATE_INUSE @
     code_VALIDATE_PAD @
     code_VALIDATE_BOUNDS @
     code_VALIDATE_RANGE @
     code_VALIDATE_ORDER @
     code_VALIDATE_EXTRA @
     code_VALIDATE_REDEF @
     code_HANDLE_PARMERR @
     code_INC_UNUSED @
     code_INC_VALID @
     code_COMPUTE_INVALID @
     code_COMPUTE_RESULT @
     code_EMIT_INFO etype_information @
     code_EMIT_ERROR_PARMERR etype_error @
     code_EMIT_ERROR etype_error @
     code_PARM_TO_STR"

text \<open>\<^verbatim>\<open>VSC_table_validate\<close> (vsc_table.c). \<^verbatim>\<open>CFE_SUCCESS\<close> is a constant of cFE, the parameter
  \<open>cfe_success\<close>; \<^verbatim>\<open>VSC_TABLE_INVALID_RESULT\<close> is its bitwise complement \<^verbatim>\<open>~CFE_SUCCESS\<close>, which
  is \<open>- cfe_success - 1\<close> on a two's complement integer. The two calls of the performance log
  are left out.\<close>

definition VSC_TABLE_INVALID_RESULT :: "int \<Rightarrow> int" where
  "VSC_TABLE_INVALID_RESULT cfe_success = - cfe_success - 1"

definition VSC_table_validate ::
  "nat \<Rightarrow> grunt_number_t \<Rightarrow> grunt_number_t \<Rightarrow> int \<Rightarrow> 8 word list option \<Rightarrow> grunt_state \<Rightarrow>
   (int \<times> grunt_state) option" where
  "VSC_table_validate qsize etype_information etype_error cfe_success TblData s =
     (case GRUNT_Run qsize (vsvf_program etype_information etype_error) VSVF_NUM_INSTRUCTIONS
             TblData (of_nat sizeof_vs_table_t) vsvf_strings VSVF_NUM_STRINGS s of
        None \<Rightarrow> None
      | Some (status, s') \<Rightarrow>
          Some (if GRUNT_HALT_TRUE = status then cfe_success
                else VSC_TABLE_INVALID_RESULT cfe_success, s'))"

section \<open>The list view of the interpreter\<close>

text \<open>The proofs about whole runs use a second presentation of the interpreter in which the
  argument stack and the control stack are two lists (top first) and the registers and the
  unused slots of the array do not appear. \<open>view b\<close> maps a state of the interpreter to this
  presentation, leaving out the first \<open>b\<close> events of the log (those sent before the run
  started), and \<open>env_of\<close> collects what a run never changes. The functions \<open>a_...\<close> follow
  the functions of the source one by one; \<open>view_step\<close> and \<open>view_run_loop\<close> below show that
  they compute the view of what the interpreter computes.\<close>

record aenv =
  e_qsize :: nat
  e_input :: "8 word list option"
  e_input_size :: grunt_rep_t
  e_strings :: "string list"
  e_num_strings :: grunt_rep_t

record astate =
  a_args :: "grunt_value_t list"
  a_ctl :: "grunt_value_t list"
  a_pc :: grunt_pc_t
  a_head :: grunt_rep_t
  a_queue :: "char list"
  a_tail :: grunt_rep_t
  a_evs :: "evs_event list"

definition env_of :: "nat \<Rightarrow> grunt_state \<Rightarrow> aenv" where
  "env_of qsize s =
     \<lparr>e_qsize = qsize, e_input = g_input_queue s, e_input_size = g_input_queue_size s,
      e_strings = g_string_table s, e_num_strings = g_num_strings s\<rparr>"

definition view :: "nat \<Rightarrow> grunt_state \<Rightarrow> astate" where
  "view b s =
     \<lparr>a_args = map (g_stack s) (rev [0..<g_argument_count s]),
      a_ctl = map (g_stack s) [GRUNT_STACK_SIZE - g_control_count s..<GRUNT_STACK_SIZE],
      a_pc = g_pc s, a_head = g_head_index s, a_queue = g_output_queue s,
      a_tail = g_tail_index s, a_evs = drop b (evs_sent s)\<rparr>"

definition a_push :: "grunt_value_t \<Rightarrow> astate \<Rightarrow> int \<times> astate" where
  "a_push arg a =
     (if \<not> (type_of arg = gt_bool \<or> type_of arg = gt_num \<or> type_of arg = gt_str)
      then (GRUNT_ERROR_INTERPRETERBUG, a)
      else if length (a_args a) + length (a_ctl a) + 1 > GRUNT_STACK_SIZE
      then (GRUNT_ERROR_OUTOFBOUNDS, a)
      else (0, a\<lparr>a_args := arg # a_args a\<rparr>))"

text \<open>A pop hands the popped value to the rest of the instruction.\<close>

definition a_pop :: "astate \<Rightarrow> (grunt_value_t \<Rightarrow> astate \<Rightarrow> int \<times> astate) \<Rightarrow> int \<times> astate" where
  "a_pop a k =
     (case a_args a of [] \<Rightarrow> (GRUNT_ERROR_OUTOFBOUNDS, a) | v # vs \<Rightarrow> k v (a\<lparr>a_args := vs\<rparr>))"

definition a_dup :: "grunt_rep_t \<Rightarrow> astate \<Rightarrow> int \<times> astate" where
  "a_dup n a =
     (if n = 0 then (GRUNT_ERROR_INTERPRETERBUG, a)
      else if length (a_args a) < unat n then (GRUNT_ERROR_OUTOFBOUNDS, a)
      else if length (a_args a) + length (a_ctl a) + unat n > GRUNT_STACK_SIZE
      then (GRUNT_ERROR_OUTOFBOUNDS, a)
      else (0, a\<lparr>a_args := take (unat n) (a_args a) @ a_args a\<rparr>))"

definition a_roll :: "grunt_rep_t \<Rightarrow> astate \<Rightarrow> int \<times> astate" where
  "a_roll n a =
     (if n < 2 then (GRUNT_ERROR_INTERPRETERBUG, a)
      else if length (a_args a) < unat n then (GRUNT_ERROR_OUTOFBOUNDS, a)
      else (0, a\<lparr>a_args := take (unat n - 1) (tl (a_args a)) @ hd (a_args a) #
                              drop (unat n) (a_args a)\<rparr>))"

definition a_ctl_push :: "grunt_value_t \<Rightarrow> astate \<Rightarrow> int \<times> astate" where
  "a_ctl_push arg a =
     (if \<not> (type_of arg = gt_pc) then (GRUNT_ERROR_INTERPRETERBUG, a)
      else if length (a_args a) + length (a_ctl a) + 1 > GRUNT_STACK_SIZE
      then (GRUNT_ERROR_OUTOFBOUNDS, a)
      else (0, a\<lparr>a_ctl := arg # a_ctl a\<rparr>))"

definition a_ctl_pop :: "astate \<Rightarrow> (grunt_value_t \<Rightarrow> astate \<Rightarrow> int \<times> astate) \<Rightarrow> int \<times> astate" where
  "a_ctl_pop a k =
     (case a_ctl a of [] \<Rightarrow> (GRUNT_ERROR_OUTOFBOUNDS, a) | v # vs \<Rightarrow> k v (a\<lparr>a_ctl := vs\<rparr>))"

definition a_rewind :: "grunt_rep_t \<Rightarrow> astate \<Rightarrow> int \<times> astate" where
  "a_rewind n a =
     (if n > a_head a then (GRUNT_ERROR_OUTOFBOUNDS, a)
      else if n = 0 then (0, a\<lparr>a_head := 0\<rparr>)
      else (0, a\<lparr>a_head := a_head a - n\<rparr>))"

definition a_dequeue ::
  "aenv \<Rightarrow> grunt_rep_t \<Rightarrow> astate \<Rightarrow> (grunt_value_t \<Rightarrow> astate \<Rightarrow> int \<times> astate) \<Rightarrow> int \<times> astate" where
  "a_dequeue env n a k =
     (case e_input env of
        None \<Rightarrow> (GRUNT_ERROR_INTERPRETERBUG, a)
      | Some q \<Rightarrow>
          if \<not> (n = 1 \<or> n = 2 \<or> n = 4) then (GRUNT_ERROR_INVALIDLITERAL, a)
          else if unat (a_head a) + unat n > unat (e_input_size env)
          then (GRUNT_ERROR_OUTOFBOUNDS, a)
          else if n = 4 \<or> n = 2 \<or> n = 1
          then k (VNum (read_uint q (unat (a_head a)) (unat n))) (a\<lparr>a_head := a_head a + n\<rparr>)
          else (GRUNT_ERROR_INTERPRETERBUG, a))"

definition a_enqueue :: "aenv \<Rightarrow> string \<Rightarrow> grunt_rep_t \<Rightarrow> astate \<Rightarrow> int \<times> astate" where
  "a_enqueue env string len a =
     (if int (unat (a_tail a)) + int (unat len) > int (e_qsize env) - 1
      then (GRUNT_ERROR_OUTOFBOUNDS, a)
      else (0, a\<lparr>a_queue := take (unat (a_tail a)) (a_queue a) @ take (unat len) string @
                             drop (unat (a_tail a) + unat len) (a_queue a),
                 a_tail := a_tail a + len\<rparr>))"

definition a_enqueue_boolean :: "aenv \<Rightarrow> bool \<Rightarrow> astate \<Rightarrow> int \<times> astate" where
  "a_enqueue_boolean env tf a =
     (if tf then a_enqueue env ''true'' 4 a else a_enqueue env ''false'' 5 a)"

definition a_enqueue_number :: "aenv \<Rightarrow> grunt_number_t \<Rightarrow> astate \<Rightarrow> int \<times> astate" where
  "a_enqueue_number env u a =
     (let string = take (NUMBER_BUFFER_SIZE - 1) (decimal (unat u));
          len = int (length (decimal (unat u)))
      in if - 1 = len then (GRUNT_ERROR_INTERPRETERBUG, a)
         else if len > int GRUNT_REP_MAX then (GRUNT_ERROR_INTERPRETERBUG, a)
         else a_enqueue env string (of_int len) a)"

definition a_enqueue_string :: "aenv \<Rightarrow> grunt_string_t \<Rightarrow> astate \<Rightarrow> int \<times> astate" where
  "a_enqueue_string env string_index a =
     (if \<not> (string_index < e_num_strings env) then (GRUNT_ERROR_INVALIDLITERAL, a)
      else let len = (of_nat (strlen (e_strings env ! unat string_index)) :: grunt_rep_t)
           in if GRUNT_REP_MAX < unat len then (GRUNT_ERROR_OUTOFBOUNDS, a)
              else a_enqueue env (e_strings env ! unat string_index) len a)"

definition a_flush :: "aenv \<Rightarrow> grunt_number_t \<Rightarrow> grunt_number_t \<Rightarrow> astate \<Rightarrow> astate" where
  "a_flush env event_type event_id a =
     a\<lparr>a_evs := a_evs a @ [(event_id, event_type, c_string (a_queue a))],
       a_queue := replicate (e_qsize env) NUL, a_tail := 0\<rparr>"

definition a_vm_dup :: "grunt_rep_t \<Rightarrow> astate \<Rightarrow> int \<times> astate" where
  "a_vm_dup reps a = (if reps < 1 then (GRUNT_ERROR_INVALIDLITERAL, a) else a_dup reps a)"

fun a_pop_loop :: "nat \<Rightarrow> astate \<Rightarrow> int \<times> astate" where
  "a_pop_loop 0 a = (0, a)"
| "a_pop_loop (Suc k) a = a_pop a (\<lambda>v. a_pop_loop k)"

definition a_vm_pop :: "grunt_rep_t \<Rightarrow> astate \<Rightarrow> int \<times> astate" where
  "a_vm_pop reps a =
     (if reps < 1 then (GRUNT_ERROR_INVALIDLITERAL, a) else a_pop_loop (unat reps) a)"

definition a_vm_pushb :: "grunt_value_t \<Rightarrow> astate \<Rightarrow> int \<times> astate" where
  "a_vm_pushb p_literal a =
     (if type_of p_literal \<noteq> gt_bool then (GRUNT_ERROR_INVALIDLITERAL, a)
      else a_push p_literal a)"

definition a_vm_pushn :: "grunt_value_t \<Rightarrow> astate \<Rightarrow> int \<times> astate" where
  "a_vm_pushn p_literal a =
     (if type_of p_literal \<noteq> gt_num then (GRUNT_ERROR_INVALIDLITERAL, a)
      else a_push p_literal a)"

definition a_vm_pushs :: "grunt_value_t \<Rightarrow> astate \<Rightarrow> int \<times> astate" where
  "a_vm_pushs p_literal a =
     (if type_of p_literal \<noteq> gt_str then (GRUNT_ERROR_INVALIDLITERAL, a)
      else a_push p_literal a)"

definition a_vm_roll :: "grunt_rep_t \<Rightarrow> astate \<Rightarrow> int \<times> astate" where
  "a_vm_roll reps a = (if reps < 2 then (GRUNT_ERROR_INVALIDLITERAL, a) else a_roll reps a)"

definition a_vm_call :: "grunt_value_t \<Rightarrow> astate \<Rightarrow> int \<times> astate" where
  "a_vm_call p_literal a =
     (if type_of p_literal \<noteq> gt_pc then (GRUNT_ERROR_INVALIDLITERAL, a)
      else if val_pc p_literal < a_pc a then (GRUNT_ERROR_NOLOOPS, a)
      else chk (a_ctl_push (VPC (a_pc a)) a) (\<lambda>a2. (0, a2\<lparr>a_pc := val_pc p_literal\<rparr>)))"

definition a_vm_halt :: "astate \<Rightarrow> int \<times> astate" where
  "a_vm_halt a =
     a_pop a (\<lambda>v a1. if type_of v \<noteq> gt_bool then (GRUNT_ERROR_INVALIDARGUMENT, a1)
                      else (if val_b v then GRUNT_HALT_TRUE else GRUNT_HALT_FALSE, a1))"

definition a_vm_jmpif :: "grunt_value_t \<Rightarrow> astate \<Rightarrow> int \<times> astate" where
  "a_vm_jmpif p_literal a =
     (if type_of p_literal \<noteq> gt_pc then (GRUNT_ERROR_INVALIDLITERAL, a)
      else if val_pc p_literal < 2 then (GRUNT_ERROR_INVALIDLITERAL, a)
      else a_pop a
        (\<lambda>v a1. if type_of v \<noteq> gt_bool then (GRUNT_ERROR_INVALIDARGUMENT, a1)
                else if \<not> val_b v then (0, a1)
                else if unat (val_pc p_literal) > UINT16_MAX - unat (a_pc a1)
                then (GRUNT_ERROR_NOPROGRAM, a1)
                else (0, a1\<lparr>a_pc := a_pc a1 + (val_pc p_literal - 1)\<rparr>)))"

definition a_vm_return :: "astate \<Rightarrow> int \<times> astate" where
  "a_vm_return a = a_ctl_pop a (\<lambda>v a1. (0, a1\<lparr>a_pc := val_pc v\<rparr>))"

definition a_vm_add_sub :: "bool \<Rightarrow> astate \<Rightarrow> int \<times> astate" where
  "a_vm_add_sub add_flag a =
     a_pop a
       (\<lambda>rb a1. if type_of rb \<noteq> gt_num then (GRUNT_ERROR_INVALIDARGUMENT, a1)
        else a_pop a1
       (\<lambda>ra a2. if type_of ra \<noteq> gt_num then (GRUNT_ERROR_INVALIDARGUMENT, a2)
        else if add_flag then
          (if val_num rb > GRUNT_NUM_MAX - val_num ra then (GRUNT_ERROR_OUTOFBOUNDS, a2)
           else a_push (VNum (val_num ra + val_num rb)) a2)
        else
          (if val_num ra < val_num rb then (GRUNT_ERROR_OUTOFBOUNDS, a2)
           else a_push (VNum (val_num ra - val_num rb)) a2)))"

fun a_and_or_loop :: "bool \<Rightarrow> nat \<Rightarrow> grunt_value_t \<times> astate \<Rightarrow> int \<times> grunt_value_t \<times> astate" where
  "a_and_or_loop and_flag 0 ra = (0, ra)"
| "a_and_or_loop and_flag (Suc k) (ra, a) =
     (case a_args a of
        [] \<Rightarrow> (GRUNT_ERROR_OUTOFBOUNDS, ra, a)
      | rb # vs \<Rightarrow>
          if type_of rb \<noteq> gt_bool then (GRUNT_ERROR_INVALIDARGUMENT, ra, a\<lparr>a_args := vs\<rparr>)
          else a_and_or_loop and_flag k
                 (VBool (if and_flag then val_b ra \<and> val_b rb else val_b ra \<or> val_b rb),
                  a\<lparr>a_args := vs\<rparr>))"

definition a_vm_and_or :: "grunt_rep_t \<Rightarrow> bool \<Rightarrow> astate \<Rightarrow> int \<times> astate" where
  "a_vm_and_or n and_flag a =
     (if n < 2 then (GRUNT_ERROR_INVALIDLITERAL, a)
      else a_pop a
        (\<lambda>ra a1. if type_of ra \<noteq> gt_bool then (GRUNT_ERROR_INVALIDARGUMENT, a1)
         else case a_and_or_loop and_flag (unat n - 1) (ra, a1) of (status, ra2, a2) \<Rightarrow>
           if status \<noteq> 0 then (status, a2) else a_push ra2 a2))"

fun a_eq_loop :: "grunt_value_t \<Rightarrow> nat \<Rightarrow> bool \<times> astate \<Rightarrow> int \<times> bool \<times> astate" where
  "a_eq_loop ra 0 fa = (0, fa)"
| "a_eq_loop ra (Suc k) (equal_flag, a) =
     (case a_args a of
        [] \<Rightarrow> (GRUNT_ERROR_OUTOFBOUNDS, equal_flag, a)
      | rb # vs \<Rightarrow>
          if type_of rb \<noteq> gt_num then (GRUNT_ERROR_INVALIDARGUMENT, equal_flag, a\<lparr>a_args := vs\<rparr>)
          else a_eq_loop ra k
                 (if val_num ra \<noteq> val_num rb then False else equal_flag, a\<lparr>a_args := vs\<rparr>))"

definition a_vm_eq :: "grunt_rep_t \<Rightarrow> astate \<Rightarrow> int \<times> astate" where
  "a_vm_eq n a =
     (if n < 2 then (GRUNT_ERROR_INVALIDLITERAL, a)
      else a_pop a
        (\<lambda>ra a1. if type_of ra \<noteq> gt_num then (GRUNT_ERROR_INVALIDARGUMENT, a1)
         else case a_eq_loop ra (unat n - 1) (True, a1) of (status, equal_flag, a2) \<Rightarrow>
           if status \<noteq> 0 then (status, a2) else a_push (VBool equal_flag) a2))"

definition a_vm_lt_gt :: "bool \<Rightarrow> astate \<Rightarrow> int \<times> astate" where
  "a_vm_lt_gt lt_flag a =
     a_pop a
       (\<lambda>rb a1. if type_of rb \<noteq> gt_num then (GRUNT_ERROR_INVALIDARGUMENT, a1)
        else a_pop a1
       (\<lambda>ra a2. if type_of ra \<noteq> gt_num then (GRUNT_ERROR_INVALIDARGUMENT, a2)
        else a_push (VBool (if lt_flag then val_num ra < val_num rb
                            else val_num ra > val_num rb)) a2))"

definition a_vm_not :: "astate \<Rightarrow> int \<times> astate" where
  "a_vm_not a =
     a_pop a (\<lambda>ra a1. if type_of ra \<noteq> gt_bool then (GRUNT_ERROR_INVALIDARGUMENT, a1)
                       else a_push (VBool (\<not> val_b ra)) a1)"

definition a_vm_flush :: "aenv \<Rightarrow> astate \<Rightarrow> int \<times> astate" where
  "a_vm_flush env a =
     a_pop a
       (\<lambda>ra a1. if type_of ra \<noteq> gt_num then (GRUNT_ERROR_INVALIDARGUMENT, a1)
        else a_pop a1
       (\<lambda>rb a2. if type_of rb \<noteq> gt_num then (GRUNT_ERROR_INVALIDARGUMENT, a2)
        else (0, a_flush env (val_num ra) (val_num rb) a2)))"

definition a_vm_input :: "aenv \<Rightarrow> grunt_rep_t \<Rightarrow> astate \<Rightarrow> int \<times> astate" where
  "a_vm_input env n a =
     (if n \<noteq> 4 \<and> n \<noteq> 2 \<and> n \<noteq> 1 then (GRUNT_ERROR_INVALIDLITERAL, a)
      else a_dequeue env n a a_push)"

definition a_vm_output :: "aenv \<Rightarrow> astate \<Rightarrow> int \<times> astate" where
  "a_vm_output env a =
     a_pop a
       (\<lambda>ra a1. case type_of ra of
                  gt_bool \<Rightarrow> a_enqueue_boolean env (val_b ra) a1
                | gt_num \<Rightarrow> a_enqueue_number env (val_num ra) a1
                | gt_str \<Rightarrow> a_enqueue_string env (val_str ra) a1
                | gt_pc \<Rightarrow> (GRUNT_ERROR_INVALIDARGUMENT, a1))"

definition a_step :: "aenv \<Rightarrow> grunt_instruction_t \<Rightarrow> astate \<Rightarrow> int \<times> astate" where
  "a_step env p_i a0 =
     (let a = a0\<lparr>a_pc := a_pc a0 + 1\<rparr> in
      if op p_i = GRUNT_OP_ADD then a_vm_add_sub True a
      else if op p_i = GRUNT_OP_AND then a_vm_and_or (arg_rep p_i) True a
      else if op p_i = GRUNT_OP_CALL then a_vm_call (arg_lit p_i) a
      else if op p_i = GRUNT_OP_DUP then a_vm_dup (arg_rep p_i) a
      else if op p_i = GRUNT_OP_EQ then a_vm_eq (arg_rep p_i) a
      else if op p_i = GRUNT_OP_FLUSH then a_vm_flush env a
      else if op p_i = GRUNT_OP_GT then a_vm_lt_gt False a
      else if op p_i = GRUNT_OP_HALT then a_vm_halt a
      else if op p_i = GRUNT_OP_INPUT then a_vm_input env (arg_rep p_i) a
      else if op p_i = GRUNT_OP_JMPIF then a_vm_jmpif (arg_lit p_i) a
      else if op p_i = GRUNT_OP_LT then a_vm_lt_gt True a
      else if op p_i = GRUNT_OP_NOT then a_vm_not a
      else if op p_i = GRUNT_OP_OUTPUT then a_vm_output env a
      else if op p_i = GRUNT_OP_OR then a_vm_and_or (arg_rep p_i) False a
      else if op p_i = GRUNT_OP_POP then a_vm_pop (arg_rep p_i) a
      else if op p_i = GRUNT_OP_PUSHB then a_vm_pushb (arg_lit p_i) a
      else if op p_i = GRUNT_OP_PUSHN then a_vm_pushn (arg_lit p_i) a
      else if op p_i = GRUNT_OP_PUSHS then a_vm_pushs (arg_lit p_i) a
      else if op p_i = GRUNT_OP_RETURN then a_vm_return a
      else if op p_i = GRUNT_OP_REWIND then a_rewind (arg_rep p_i) a
      else if op p_i = GRUNT_OP_ROLL then a_vm_roll (arg_rep p_i) a
      else if op p_i = GRUNT_OP_SUB then a_vm_add_sub False a
      else (GRUNT_ERROR_INVALIDOPCODE, a))"

partial_function (option) a_loop ::
  "aenv \<Rightarrow> grunt_instruction_t list \<Rightarrow> grunt_pc_t \<Rightarrow> astate \<Rightarrow> (int \<times> astate) option" where
  "a_loop env program num_instructions a =
     (if \<not> (a_pc a < num_instructions) then Some (GRUNT_ERROR_NOPROGRAM, a)
      else case a_step env (program ! unat (a_pc a)) a of (status, a1) \<Rightarrow>
             if status = 0 then a_loop env program num_instructions a1
             else Some (status, a1))"

text \<open>\<open>rel b qsize env s a\<close>: the event log of the state \<open>s\<close> starts with \<open>b\<close>, the list view of
  \<open>s\<close> without these events is \<open>a\<close>, the two stacks of \<open>s\<close> fit into the array, and \<open>env\<close> is
  the environment of \<open>s\<close>. \<open>sim\<close> lifts this to results with a status.\<close>

definition rel :: "evs_event list \<Rightarrow> nat \<Rightarrow> aenv \<Rightarrow> grunt_state \<Rightarrow> astate \<Rightarrow> bool" where
  "rel b qsize env s a \<longleftrightarrow>
     view (length b) s = a \<and> stack_ok s \<and> env_of qsize s = env \<and>
     take (length b) (evs_sent s) = b \<and> length b \<le> length (evs_sent s)"

definition sim :: "evs_event list \<Rightarrow> nat \<Rightarrow> aenv \<Rightarrow> int \<times> grunt_state \<Rightarrow> int \<times> astate \<Rightarrow> bool" where
  "sim b qsize env r ar \<longleftrightarrow> fst r = fst ar \<and> rel b qsize env (snd r) (snd ar)"

text \<open>The statuses with which a run can end: the two halts and the seven faults.\<close>

definition end_codes :: "int set" where
  "end_codes = {GRUNT_HALT_TRUE, GRUNT_HALT_FALSE, GRUNT_ERROR_INTERPRETERBUG,
     GRUNT_ERROR_INVALIDARGUMENT, GRUNT_ERROR_INVALIDLITERAL, GRUNT_ERROR_INVALIDOPCODE,
     GRUNT_ERROR_NOLOOPS, GRUNT_ERROR_NOPROGRAM, GRUNT_ERROR_OUTOFBOUNDS}"

text \<open>\<open>keeps a r\<close>: the result \<open>r\<close> of an operation on \<open>a\<close> has the control stack and the program
  counter of \<open>a\<close>, and its status is success or one of the end codes.\<close>

definition keeps :: "astate \<Rightarrow> int \<times> astate \<Rightarrow> bool" where
  "keeps a r \<longleftrightarrow> a_ctl (snd r) = a_ctl a \<and> a_pc (snd r) = a_pc a \<and> fst r \<in> insert 0 end_codes"

text \<open>The termination measure of the run loop: the return addresses of the control stack
  from the bottom up, then the program counter, each counted down from \<open>65536\<close>, padded with
  zeros to the length \<open>GRUNT_STACK_SIZE + 1\<close>. Every successful step makes this list smaller
  in the lexicographic order.\<close>

definition run_measure :: "astate \<Rightarrow> nat list" where
  "run_measure a =
     map (\<lambda>v. 65536 - unat (val_pc v)) (rev (a_ctl a)) @ [65536 - unat (a_pc a)] @
     replicate (GRUNT_STACK_SIZE - length (a_ctl a)) 0"

text \<open>The list view of the state in which \<^verbatim>\<open>GRUNT_Run\<close> enters its loop, and the environment of
  the run.\<close>

definition a_init :: "nat \<Rightarrow> astate" where
  "a_init qsize =
     \<lparr>a_args = [], a_ctl = [], a_pc = 0, a_head = 0, a_queue = replicate qsize NUL,
      a_tail = 0, a_evs = []\<rparr>"

definition run_env ::
  "nat \<Rightarrow> 8 word list option \<Rightarrow> grunt_rep_t \<Rightarrow> string list \<Rightarrow> grunt_string_t \<Rightarrow> aenv" where
  "run_env qsize p_data data_size string_table num_strings =
     \<lparr>e_qsize = qsize, e_input = p_data, e_input_size = data_size,
      e_strings = string_table, e_num_strings = num_strings\<rparr>"

(* PROPERTIES *)

section \<open>Properties of single instructions\<close>

lemma unat32_bound: "unat (a :: 32 word) < 4294967296"
  using unsigned_less[of a, where 'a=nat] by simp

lemma word32_max_sub: "unat (0xFFFFFFFF - a :: 32 word) = 4294967295 - unat a"
  using unat32_bound[of a] by (simp add: unat_sub word_le_nat_alt)

text \<open>C8. \<open>ADD\<close> and \<open>SUB\<close> on a stack that holds \<open>Num a\<close> below \<open>Num b\<close>: \<open>ADD\<close> returns
  \<open>OutOfBounds\<close> when the exact sum \<open>a + b\<close> is larger than \<open>NUM_MAX = 2^32 - 1\<close>, and otherwise
  replaces the two numbers by the exact sum; \<open>SUB\<close> returns \<open>OutOfBounds\<close> when \<open>a < b\<close>, and
  otherwise replaces them by the exact difference. Neither result is reduced modulo
  \<open>2^32\<close>.\<close>

theorem add_sub_exact:
  assumes "stack_ok s"
    and "g_argument_count s = Suc (Suc n)"
    and "g_stack s n = VNum a" and "g_stack s (Suc n) = VNum b"
  shows "(if 2 ^ 32 - 1 < unat a + unat b
          then fst (grunt_vm_step qsize ADD s) = GRUNT_ERROR_OUTOFBOUNDS
          else fst (grunt_vm_step qsize ADD s) = 0 \<and>
               g_argument_count (snd (grunt_vm_step qsize ADD s)) = Suc n \<and>
               (\<exists>w. g_stack (snd (grunt_vm_step qsize ADD s)) n = VNum w \<and>
                    unat w = unat a + unat b)) \<and>
         (if unat a < unat b
          then fst (grunt_vm_step qsize SUB s) = GRUNT_ERROR_OUTOFBOUNDS
          else fst (grunt_vm_step qsize SUB s) = 0 \<and>
               g_argument_count (snd (grunt_vm_step qsize SUB s)) = Suc n \<and>
               (\<exists>w. g_stack (snd (grunt_vm_step qsize SUB s)) n = VNum w \<and>
                    unat w = unat a - unat b))"
  using assms unat32_bound[of a] unat32_bound[of b]
  apply (simp add: grunt_vm_step_def ADD_def SUB_def mk_rep_def grunt_vm_add_sub_def chk_def
      grunt_stack_arg_pop_def grunt_stack_arg_push_def GRUNT_STACK_SIZE_def stack_ok_def
      word_less_nat_alt word32_max_sub Let_def)
  apply (intro conjI impI)
  apply (simp_all add: unat_add_lem[THEN iffD1] unat_sub word_le_nat_alt)
  done

theorem add_sub_exact_witness:
  "stack_ok (stack_of 122 [VNum 0xFFFFFFFF, VNum 1]) \<and>
   g_argument_count (stack_of 122 [VNum 0xFFFFFFFF, VNum 1]) = Suc (Suc 0) \<and>
   g_stack (stack_of 122 [VNum 0xFFFFFFFF, VNum 1]) 0 = VNum 0xFFFFFFFF \<and>
   g_stack (stack_of 122 [VNum 0xFFFFFFFF, VNum 1]) (Suc 0) = VNum 1 \<and>
   fst (grunt_vm_step 122 ADD (stack_of 122 [VNum 0xFFFFFFFF, VNum 1])) = GRUNT_ERROR_OUTOFBOUNDS \<and>
   fst (grunt_vm_step 122 SUB (stack_of 122 [VNum 0xFFFFFFFF, VNum 1])) = 0"
proof -
  have h1: "stack_ok (stack_of 122 [VNum 0xFFFFFFFF, VNum 1])"
    and h2: "g_argument_count (stack_of 122 [VNum 0xFFFFFFFF, VNum 1]) = Suc (Suc 0)"
    and h3: "g_stack (stack_of 122 [VNum 0xFFFFFFFF, VNum 1]) 0 = VNum 0xFFFFFFFF"
    and h4: "g_stack (stack_of 122 [VNum 0xFFFFFFFF, VNum 1]) (Suc 0) = VNum 1"
    by (simp_all add: stack_of_def static_init_def grunt_stack_arg_push_def
        GRUNT_STACK_SIZE_def stack_ok_def)
  from add_sub_exact[where qsize=122, OF h1 h2 h3 h4] h1 h2 h3 h4 show ?thesis
    by simp
qed


text \<open>C10. \<open>OUTPUT\<close> of a \<open>Str i\<close> whose index \<open>i\<close> is not below the number of strings of
  the string table returns \<open>InvalidLiteral\<close> (neither \<open>OutOfBounds\<close> nor \<open>InvalidArgument\<close>)
  and changes neither the output line buffer nor its tail index.\<close>

theorem output_bad_string_index:
  assumes "g_argument_count s = Suc n" and "g_stack s n = VStr i"
    and "\<not> i < g_num_strings s"
  shows "fst (grunt_vm_step qsize OUTPUT s) = GRUNT_ERROR_INVALIDLITERAL \<and>
         fst (grunt_vm_step qsize OUTPUT s) \<noteq> GRUNT_ERROR_OUTOFBOUNDS \<and>
         fst (grunt_vm_step qsize OUTPUT s) \<noteq> GRUNT_ERROR_INVALIDARGUMENT \<and>
         g_output_queue (snd (grunt_vm_step qsize OUTPUT s)) = g_output_queue s \<and>
         g_tail_index (snd (grunt_vm_step qsize OUTPUT s)) = g_tail_index s"
  using assms
  by (simp add: grunt_vm_step_def OUTPUT_def mk_rep_def grunt_vm_output_def chk_def
      grunt_stack_arg_pop_def grunt_output_enqueue_string_def)

theorem output_bad_string_index_witness:
  "g_argument_count (stack_of 122 [VStr 0]) = Suc 0 \<and>
   g_stack (stack_of 122 [VStr 0]) 0 = VStr 0 \<and>
   \<not> 0 < g_num_strings (stack_of 122 [VStr 0]) \<and>
   fst (grunt_vm_step 122 OUTPUT (stack_of 122 [VStr 0])) = GRUNT_ERROR_INVALIDLITERAL"
proof -
  have h1: "g_argument_count (stack_of 122 [VStr 0]) = Suc 0"
    and h2: "g_stack (stack_of 122 [VStr 0]) 0 = VStr 0"
    and h3: "\<not> 0 < g_num_strings (stack_of 122 [VStr 0])"
    by (simp_all add: stack_of_def static_init_def grunt_stack_arg_push_def GRUNT_STACK_SIZE_def)
  from output_bad_string_index[where qsize=122, OF h1 h2 h3] h1 h2 h3 show ?thesis by simp
qed

text \<open>C5. \<open>FLUSH\<close> pops the severity (event type) from the top of the argument stack and
  the event id from the slot beneath it. If one of the two is not a \<open>Num\<close> the status is
  \<open>InvalidArgument\<close>. Otherwise the event sink is called with the event id, the severity
  and the NUL-terminated line accumulated in the output buffer, and afterwards the whole
  buffer is zero bytes and the tail index is 0.\<close>

theorem flush_emits_and_resets:
  assumes "g_argument_count s = Suc (Suc n)"
    and "g_stack s (Suc n) = vtop" and "g_stack s n = beneath"
  shows "(type_of vtop \<noteq> gt_num \<or> type_of beneath \<noteq> gt_num \<longrightarrow>
            fst (grunt_vm_step qsize FLUSH s) = GRUNT_ERROR_INVALIDARGUMENT) \<and>
         (vtop = VNum severity \<and> beneath = VNum event_id \<longrightarrow>
            fst (grunt_vm_step qsize FLUSH s) = 0 \<and>
            g_argument_count (snd (grunt_vm_step qsize FLUSH s)) = n \<and>
            evs_sent (snd (grunt_vm_step qsize FLUSH s)) =
              evs_sent s @ [(event_id, severity, c_string (g_output_queue s))] \<and>
            g_output_queue (snd (grunt_vm_step qsize FLUSH s)) = replicate qsize NUL \<and>
            g_tail_index (snd (grunt_vm_step qsize FLUSH s)) = 0)"
  using assms
  by (auto simp add: grunt_vm_step_def FLUSH_def mk_rep_def grunt_vm_flush_def chk_def
      grunt_stack_arg_pop_def grunt_output_flush_def grunt_output_reset_def Let_def)

theorem flush_emits_and_resets_witness:
  "g_argument_count (stack_of 122 [VNum 0x0008, VNum 2]) = Suc (Suc 0) \<and>
   g_stack (stack_of 122 [VNum 0x0008, VNum 2]) (Suc 0) = VNum 2 \<and>
   g_stack (stack_of 122 [VNum 0x0008, VNum 2]) 0 = VNum 0x0008 \<and>
   fst (grunt_vm_step 122 FLUSH (stack_of 122 [VNum 0x0008, VNum 2])) = 0 \<and>
   evs_sent (snd (grunt_vm_step 122 FLUSH (stack_of 122 [VNum 0x0008, VNum 2]))) =
     [(0x0008, 2, [])] \<and>
   g_tail_index (snd (grunt_vm_step 122 FLUSH (stack_of 122 [VNum 0x0008, VNum 2]))) = 0"
proof -
  have h1: "g_argument_count (stack_of 122 [VNum 0x0008, VNum 2]) = Suc (Suc 0)"
    and h2: "g_stack (stack_of 122 [VNum 0x0008, VNum 2]) (Suc 0) = VNum 2"
    and h3: "g_stack (stack_of 122 [VNum 0x0008, VNum 2]) 0 = VNum 0x0008"
    and h4: "evs_sent (stack_of 122 [VNum 0x0008, VNum 2]) = []"
    and h5: "c_string (g_output_queue (stack_of 122 [VNum 0x0008, VNum 2])) = []"
    by (simp_all add: stack_of_def static_init_def grunt_stack_arg_push_def GRUNT_STACK_SIZE_def
        c_string_def)
  from flush_emits_and_resets[where severity=2 and event_id=8 and qsize=122, OF h1 h2 h3]
    h1 h2 h3 h4 h5 show ?thesis by simp
qed


lemma pc_succ_unat:
  assumes "(p :: 16 word) < n"
  shows "unat (p + 1) = unat p + 1"
proof -
  have "unat n < 65536" using unsigned_less[of n, where 'a=nat] by simp
  with assms have "unat p + 1 < 65536" by (simp add: word_less_nat_alt)
  then show ?thesis by (simp add: unat_add_lem[THEN iffD1])
qed

text \<open>C6. For an instruction dispatched by the run loop (its program counter is below the
  program length): a \<open>CALL\<close> whose literal is less than or equal to the program counter of the
  \<open>CALL\<close> itself returns \<open>NoLoops\<close>. A successful \<open>CALL\<close> pushes the incremented program
  counter on the control stack and sets the program counter to the literal. A \<open>RETURN\<close>
  executed in any later state whose control stack is again the one the \<open>CALL\<close> left
  succeeds, restores the control-stack height from before the \<open>CALL\<close> and sets the program
  counter to one past the \<open>CALL\<close>.\<close>

theorem call_return_pair:
  assumes "g_pc s < num_instructions"
  shows "(l \<le> g_pc s \<longrightarrow> fst (grunt_vm_step qsize (CALL l) s) = GRUNT_ERROR_NOLOOPS) \<and>
         (fst (grunt_vm_step qsize (CALL l) s) = 0 \<longrightarrow>
            g_control_count (snd (grunt_vm_step qsize (CALL l) s)) = g_control_count s + 1 \<and>
            g_stack (snd (grunt_vm_step qsize (CALL l) s))
                (GRUNT_STACK_SIZE - 1 - g_control_count s) = VPC (g_pc s + 1) \<and>
            unat (g_pc s + 1) = unat (g_pc s) + 1 \<and>
            g_pc (snd (grunt_vm_step qsize (CALL l) s)) = l \<and>
            (\<forall>t. g_control_count t = g_control_count s + 1 \<and>
                 g_stack t (GRUNT_STACK_SIZE - 1 - g_control_count s) = VPC (g_pc s + 1) \<longrightarrow>
                 fst (grunt_vm_step qsize RETURN t) = 0 \<and>
                 g_pc (snd (grunt_vm_step qsize RETURN t)) = g_pc s + 1 \<and>
                 g_control_count (snd (grunt_vm_step qsize RETURN t)) = g_control_count s))"
proof -
  note u = pc_succ_unat[OF assms]
  have nl: "l \<le> g_pc s \<Longrightarrow> l < g_pc s + 1"
    using u by (simp add: word_less_nat_alt word_le_nat_alt)
  show ?thesis
    using u nl
    by (auto simp add: grunt_vm_step_def CALL_def RETURN_def mk_lit_def mk_rep_def
        grunt_vm_call_def grunt_vm_return_def chk_def grunt_stack_ctl_push_def
        grunt_stack_ctl_pop_def Let_def split: if_splits)
qed

theorem call_return_pair_witness:
  "g_pc (static_init 122) < 33 \<and>
   fst (grunt_vm_step 122 (CALL 0) (static_init 122)) = GRUNT_ERROR_NOLOOPS \<and>
   fst (grunt_vm_step 122 (CALL 33) (static_init 122)) = 0 \<and>
   g_pc (snd (grunt_vm_step 122 (CALL 33) (static_init 122))) = 33 \<and>
   g_pc (snd (grunt_vm_step 122 RETURN
          (snd (grunt_vm_step 122 (CALL 33) (static_init 122))))) = 1"
proof -
  have h: "g_pc (static_init 122) < 33" by (simp add: static_init_def)
  have ok: "fst (grunt_vm_step 122 (CALL 33) (static_init 122)) = 0"
    by (simp add: grunt_vm_step_def CALL_def mk_lit_def grunt_vm_call_def chk_def
        grunt_stack_ctl_push_def static_init_def GRUNT_STACK_SIZE_def)
  have z: "(0 :: 16 word) \<le> g_pc (static_init 122)" by simp
  have p0: "g_pc (static_init 122) = 0" by (simp add: static_init_def)
  from call_return_pair[OF h, where l=0 and qsize=122] z
  have a: "fst (grunt_vm_step 122 (CALL 0) (static_init 122)) = GRUNT_ERROR_NOLOOPS"
    by blast
  from call_return_pair[OF h, where l=33 and qsize=122] ok
  have b: "g_control_count (snd (grunt_vm_step 122 (CALL 33) (static_init 122))) =
             g_control_count (static_init 122) + 1"
    and c: "g_stack (snd (grunt_vm_step 122 (CALL 33) (static_init 122)))
              (GRUNT_STACK_SIZE - 1 - g_control_count (static_init 122)) =
              VPC (g_pc (static_init 122) + 1)"
    and d: "g_pc (snd (grunt_vm_step 122 (CALL 33) (static_init 122))) = 33"
    and e: "\<And>t. g_control_count t = g_control_count (static_init 122) + 1 \<and>
              g_stack t (GRUNT_STACK_SIZE - 1 - g_control_count (static_init 122)) =
                VPC (g_pc (static_init 122) + 1) \<Longrightarrow>
              g_pc (snd (grunt_vm_step 122 RETURN t)) = g_pc (static_init 122) + 1"
    by blast+
  from e[of "snd (grunt_vm_step 122 (CALL 33) (static_init 122))"] b c p0
  have f: "g_pc (snd (grunt_vm_step 122 RETURN
             (snd (grunt_vm_step 122 (CALL 33) (static_init 122))))) = 1"
    by simp
  from h a ok d f show ?thesis by blast
qed




section \<open>The list view computes what the interpreter computes\<close>

lemma deref_store [simp]: "deref p (store p v s) = v"
  by (cases p) simp_all

lemma deref_store_other: "r \<noteq> p \<Longrightarrow> deref r (store p v s) = deref r s"
  by (cases p; cases r) simp_all

lemma view_store [simp]: "view b (store p v s) = view b s"
  by (cases p) (simp_all add: view_def)

lemma stack_ok_store [simp]: "stack_ok (store p v s) = stack_ok s"
  by (cases p) (simp_all add: stack_ok_def)

lemma env_of_store [simp]: "env_of q (store p v s) = env_of q s"
  by (cases p) (simp_all add: env_of_def)

lemma evs_sent_store [simp]: "evs_sent (store p v s) = evs_sent s"
  by (cases p) simp_all

lemma rel_store [simp]: "rel b q e (store p v s) a = rel b q e s a"
  by (simp add: rel_def)

lemma rel_regs [simp]:
  "rel b q e (s\<lparr>g_ra := v\<rparr>) a = rel b q e s a"
  "rel b q e (s\<lparr>g_rb := v\<rparr>) a = rel b q e s a"
  by (simp_all add: rel_def view_def stack_ok_def env_of_def)

lemma sim_ret [simp]: "sim b q e (st, s) (st', a) \<longleftrightarrow> st = st' \<and> rel b q e s a"
  by (simp add: sim_def)

lemma map_upd_notin: "i \<notin> set xs \<Longrightarrow> map (f(i := v)) xs = map f xs"
  by (induction xs) auto

lemma sim_push:
  assumes "rel b q e s a"
  shows "sim b q e (grunt_stack_arg_push v s) (a_push v a)"
  using assms
  by (auto simp add: rel_def grunt_stack_arg_push_def a_push_def view_def stack_ok_def
      env_of_def GRUNT_STACK_SIZE_def map_upd_notin)

lemma sim_pop:
  assumes "rel b q e s a"
    and "\<And>s1 v vs. rel b q e s1 (a\<lparr>a_args := vs\<rparr>) \<Longrightarrow> a_args a = v # vs \<Longrightarrow> deref p s1 = v \<Longrightarrow>
           (p = RA \<longrightarrow> g_rb s1 = g_rb s) \<and> (p = RB \<longrightarrow> g_ra s1 = g_ra s) \<Longrightarrow> sim b q e (k s1) (ak v (a\<lparr>a_args := vs\<rparr>))"
  shows "sim b q e (chk (grunt_stack_arg_pop p s) k) (a_pop a ak)"
proof (cases "g_argument_count s")
  case 0
  with assms(1) show ?thesis
    by (auto simp add: rel_def grunt_stack_arg_pop_def a_pop_def chk_def view_def)
next
  case (Suc n)
  let ?s1 = "store p (g_stack s n) (s\<lparr>g_argument_count := n\<rparr>)"
  from Suc assms(1) have a: "a_args a = g_stack s n # map (g_stack s) (rev [0..<n])"
    by (auto simp add: rel_def view_def)
  from Suc assms(1) have "rel b q e (s\<lparr>g_argument_count := n\<rparr>) (a\<lparr>a_args := map (g_stack s) (rev [0..<n])\<rparr>)"
    by (auto simp add: rel_def view_def stack_ok_def env_of_def)
  then have r: "rel b q e ?s1 (a\<lparr>a_args := map (g_stack s) (rev [0..<n])\<rparr>)"
    by (simp only: rel_store)
  have "sim b q e (k ?s1) (ak (g_stack s n) (a\<lparr>a_args := map (g_stack s) (rev [0..<n])\<rparr>))"
    by (rule assms(2)[OF r a]) (cases p; simp)+
  with Suc a show ?thesis
    by (simp add: grunt_stack_arg_pop_def a_pop_def chk_def)
qed

lemma sim_dup:
  assumes "rel b q e s a"
  shows "sim b q e (grunt_stack_arg_dup n s) (a_dup n a)"
proof -
  have args: "map (memcpy_slots c (c - m) m f) (rev [0..<c + m]) =
        take m (map f (rev [0..<c])) @ map f (rev [0..<c])" if "m \<le> c" for c m and f :: "nat \<Rightarrow> grunt_value_t"
    using that
    by (auto intro!: nth_equalityI simp add: nth_append rev_nth memcpy_slots_def min_def)
  have ctl: "map (memcpy_slots c (c - m) m f) [k..<l] = map f [k..<l]" if "c + m \<le> k"
    for c m k l and f :: "nat \<Rightarrow> grunt_value_t"
    using that by (auto simp add: memcpy_slots_def)
  show ?thesis
    using assms
    by (auto simp add: rel_def grunt_stack_arg_dup_def a_dup_def view_def stack_ok_def
        env_of_def GRUNT_STACK_SIZE_def args ctl)
qed

lemma sim_roll:
  assumes "rel b q e s a"
  shows "sim b q e (grunt_stack_arg_roll n s) (a_roll n a)"
proof -
  have args: "map ((memcpy_slots (c - m + 1) (c - m) (m - 1) f)(c - m := f (c - 1))) (rev [0..<c]) =
        take (m - 1) (tl (map f (rev [0..<c]))) @ hd (map f (rev [0..<c])) #
        drop m (map f (rev [0..<c]))" (is "?N = ?T")
    if mc: "m \<le> c" and m2: "2 \<le> m" for c m and f :: "nat \<Rightarrow> grunt_value_t"
  proof (rule nth_equalityI)
    show "length ?N = length ?T" using mc m2 by simp
  next
    fix i assume "i < length ?N"
    then have ic: "i < c" by simp
    let ?L = "map f (rev [0..<c])"
    have L: "\<And>j. j < c \<Longrightarrow> ?L ! j = f (c - 1 - j)" by (simp add: rev_nth)
    have lt: "length (take (m - 1) (tl ?L)) = m - 1" using mc m2 by simp
    consider "i < m - 1" | "i = m - 1" | "m \<le> i" by arith
    then show "?N ! i = ?T ! i"
    proof cases
      case 1
      then have "?T ! i = tl ?L ! i" using mc m2 by (simp add: nth_append)
      also have "\<dots> = ?L ! Suc i" using 1 mc by (simp add: nth_tl)
      also have "\<dots> = f (c - 1 - Suc i)"
      proof -
        from 1 mc have "Suc i < c" by arith
        then show ?thesis by (simp add: rev_nth)
      qed
      finally show ?thesis using 1 mc ic
        by (auto simp add: rev_nth memcpy_slots_def)
    next
      case 2
      then have "?T ! i = hd ?L" using mc m2 by (simp add: nth_append)
      also have "\<dots> = ?L ! 0" using mc m2 by (simp add: hd_conv_nth)
      also have "\<dots> = f (c - 1)"
      proof -
        from mc m2 have "0 < c" by arith
        then show ?thesis by (simp add: rev_nth)
      qed
      finally show ?thesis using 2 mc m2 ic
        by (auto simp add: rev_nth memcpy_slots_def)
    next
      case 3
      then have "?T ! i = (hd ?L # drop m ?L) ! (i - (m - 1))" using mc m2
        by (simp add: nth_append)
      also have "\<dots> = drop m ?L ! (i - m)"
      proof -
        from 3 m2 have "i - (m - 1) = Suc (i - m)" by arith
        then show ?thesis by simp
      qed
      also have "\<dots> = ?L ! i" using 3 ic by simp
      also have "\<dots> = f (c - 1 - i)" using ic by (simp add: rev_nth)
      finally show ?thesis using 3 mc m2 ic
        by (auto simp add: rev_nth memcpy_slots_def)
    qed
  qed
  have ctl: "map ((memcpy_slots (c - m + 1) (c - m) (m - 1) f)(c - m := v)) [k..<l] = map f [k..<l]"
    if "c \<le> k" "m \<le> c" "2 \<le> m"
    for c m k l v and f :: "nat \<Rightarrow> grunt_value_t"
    using that by (auto simp add: memcpy_slots_def)
  show ?thesis
  proof (cases "n < 2 \<or> g_argument_count s < unat n")
    case True
    with assms show ?thesis
      by (auto simp add: rel_def grunt_stack_arg_roll_def a_roll_def view_def)
  next
    case False
    let ?c = "g_argument_count s" and ?m = "unat n"
    from False have m: "?m \<le> ?c" "2 \<le> ?m" by (auto simp add: word_less_nat_alt)
    from assms m have k: "?c \<le> GRUNT_STACK_SIZE - g_control_count s"
      by (simp add: rel_def stack_ok_def) arith
    from False assms args[OF m, of "g_stack s"]
      ctl[OF k m, of "g_stack s" "g_stack s (?c - 1)" GRUNT_STACK_SIZE]
    show ?thesis
      by (auto simp add: rel_def grunt_stack_arg_roll_def a_roll_def view_def stack_ok_def
        env_of_def Let_def)
  qed
qed

lemma sim_ctl_push:
  assumes "rel b q e s a"
  shows "sim b q e (grunt_stack_ctl_push v s) (a_ctl_push v a)"
proof -
  have ctl: "map (f(31 - k := v)) [31 - k..<32] = v # map f [32 - k..<32]" if "k < 32"
    for k and f :: "nat \<Rightarrow> grunt_value_t"
  proof -
    from that have "32 - Suc k = 31 - k" and "Suc (31 - k) = 32 - k" by arith+
    with that have "[31 - k..<32] = (31 - k) # [32 - k..<32]"
      by (simp add: upt_conv_Cons)
    with that show ?thesis by (simp add: map_upd_notin)
  qed
  show ?thesis
    using assms
    by (auto simp add: rel_def grunt_stack_ctl_push_def a_ctl_push_def view_def stack_ok_def
        env_of_def GRUNT_STACK_SIZE_def map_upd_notin ctl)
qed

lemma sim_ctl_pop:
  assumes "rel b q e s a"
    and "\<And>s1 v vs. rel b q e s1 (a\<lparr>a_ctl := vs\<rparr>) \<Longrightarrow> a_ctl a = v # vs \<Longrightarrow> deref p s1 = v \<Longrightarrow>
           sim b q e (k s1) (ak v (a\<lparr>a_ctl := vs\<rparr>))"
  shows "sim b q e (chk (grunt_stack_ctl_pop p s) k) (a_ctl_pop a ak)"
proof (cases "g_control_count s")
  case 0
  with assms(1) show ?thesis
    by (auto simp add: rel_def grunt_stack_ctl_pop_def a_ctl_pop_def chk_def view_def)
next
  case (Suc n)
  let ?v = "g_stack s (GRUNT_STACK_SIZE - 1 - n)"
  let ?vs = "map (g_stack s) [GRUNT_STACK_SIZE - n..<GRUNT_STACK_SIZE]"
  let ?s1 = "store p ?v (s\<lparr>g_control_count := n\<rparr>)"
  from Suc assms(1) have n: "n < 32"
    by (simp add: rel_def stack_ok_def GRUNT_STACK_SIZE_def)
  then have "32 - Suc n = 31 - n" and "Suc (31 - n) = 32 - n" by arith+
  with n have "[32 - Suc n..<32] = (31 - n) # [32 - n..<32]"
    by (simp add: upt_conv_Cons)
  with Suc assms(1) have a: "a_ctl a = ?v # ?vs"
    by (auto simp add: rel_def view_def GRUNT_STACK_SIZE_def)
  from Suc assms(1) have "rel b q e (s\<lparr>g_control_count := n\<rparr>) (a\<lparr>a_ctl := ?vs\<rparr>)"
    by (auto simp add: rel_def view_def stack_ok_def env_of_def)
  then have r: "rel b q e ?s1 (a\<lparr>a_ctl := ?vs\<rparr>)"
    by (simp only: rel_store)
  have "sim b q e (k ?s1) (ak ?v (a\<lparr>a_ctl := ?vs\<rparr>))"
    by (rule assms(2)[OF r a]) simp
  with Suc a show ?thesis
    by (simp add: grunt_stack_ctl_pop_def a_ctl_pop_def chk_def)
qed


lemma sim_rewind:
  assumes "rel b q e s a"
  shows "sim b q e (grunt_input_rewind n s) (a_rewind n a)"
  using assms
  by (auto simp add: rel_def grunt_input_rewind_def a_rewind_def view_def stack_ok_def env_of_def)

lemma sim_dequeue:
  assumes "rel b q e s a"
    and "\<And>s1 v. rel b q e s1 (a\<lparr>a_head := a_head a + n\<rparr>) \<Longrightarrow> deref p s1 = v \<Longrightarrow>
           sim b q e (k s1) (ak v (a\<lparr>a_head := a_head a + n\<rparr>))"
  shows "sim b q e (chk (grunt_input_dequeue p n s) k) (a_dequeue e n a ak)"
proof (cases "\<exists>d. g_input_queue s = Some d \<and> (n = 1 \<or> n = 2 \<or> n = 4) \<and>
                  \<not> unat (g_head_index s) + unat n > unat (g_input_queue_size s)")
  case False
  with assms(1) show ?thesis
    by (auto simp add: rel_def grunt_input_dequeue_def a_dequeue_def chk_def view_def env_of_def
        split: option.splits)
next
  case True
  then obtain d where d: "g_input_queue s = Some d" by blast
  let ?v = "VNum (read_uint d (unat (g_head_index s)) (unat n))"
  let ?s1 = "(store p ?v s)\<lparr>g_head_index := g_head_index s + n\<rparr>"
  from assms(1) have "rel b q e (s\<lparr>g_head_index := g_head_index s + n\<rparr>) (a\<lparr>a_head := a_head a + n\<rparr>)"
    by (auto simp add: rel_def view_def stack_ok_def env_of_def)
  then have r: "rel b q e ?s1 (a\<lparr>a_head := a_head a + n\<rparr>)"
    by (cases p) (simp_all add: rel_def view_def stack_ok_def env_of_def)
  have "sim b q e (k ?s1) (ak ?v (a\<lparr>a_head := a_head a + n\<rparr>))"
    by (rule assms(2)[OF r]) (cases p; simp)
  with True d assms(1) show ?thesis
    by (auto simp add: rel_def grunt_input_dequeue_def a_dequeue_def chk_def view_def env_of_def)
qed

lemma sim_enqueue:
  assumes "rel b q e s a"
  shows "sim b q e (grunt_output_enqueue q str len s) (a_enqueue e str len a)"
  using assms
  by (auto simp add: rel_def grunt_output_enqueue_def a_enqueue_def view_def stack_ok_def env_of_def)

lemma sim_enqueue_boolean:
  assumes "rel b q e s a"
  shows "sim b q e (grunt_output_enqueue_boolean q tf s) (a_enqueue_boolean e tf a)"
  using assms
  by (simp add: grunt_output_enqueue_boolean_def a_enqueue_boolean_def sim_enqueue)

lemma sim_enqueue_number:
  assumes "rel b q e s a"
  shows "sim b q e (grunt_output_enqueue_number q u s) (a_enqueue_number e u a)"
  using assms
  by (simp add: grunt_output_enqueue_number_def a_enqueue_number_def sim_enqueue Let_def)

lemma sim_enqueue_string:
  assumes "rel b q e s a"
  shows "sim b q e (grunt_output_enqueue_string q i s) (a_enqueue_string e i a)"
proof -
  from assms have "g_num_strings s = e_num_strings e" "g_string_table s = e_strings e"
    by (auto simp add: rel_def env_of_def)
  with assms show ?thesis
    by (simp add: grunt_output_enqueue_string_def a_enqueue_string_def sim_enqueue Let_def)
qed

lemma rel_flush:
  assumes "rel b q e s a"
  shows "rel b q e (grunt_output_flush q t i s) (a_flush e t i a)"
  using assms
  by (auto simp add: rel_def grunt_output_flush_def grunt_output_reset_def a_flush_def view_def
      stack_ok_def env_of_def)

lemma rel_pc:
  assumes "rel b q e s a"
  shows "rel b q e (s\<lparr>g_pc := p\<rparr>) (a\<lparr>a_pc := p\<rparr>)" and "g_pc s = a_pc a"
  using assms
  by (auto simp add: rel_def view_def stack_ok_def env_of_def)

lemma sim_vm_add_sub:
  assumes "rel b q e s a"
  shows "sim b q e (grunt_vm_add_sub RA RB f s) (a_vm_add_sub f a)"
  unfolding grunt_vm_add_sub_def a_vm_add_sub_def
  apply (rule sim_pop[OF assms])
  apply (simp)
  apply (intro impI)
  apply (rule sim_pop, assumption)
  apply (auto simp add: Let_def intro!: sim_push)
  done

lemma sim_vm_lt_gt:
  assumes "rel b q e s a"
  shows "sim b q e (grunt_vm_lt_gt RA RB f s) (a_vm_lt_gt f a)"
  unfolding grunt_vm_lt_gt_def a_vm_lt_gt_def
  apply (rule sim_pop[OF assms])
  apply (simp)
  apply (intro impI)
  apply (rule sim_pop, assumption)
  apply (auto simp add: Let_def intro!: sim_push)
  done

lemma sim_vm_not:
  assumes "rel b q e s a"
  shows "sim b q e (grunt_vm_not RA s) (a_vm_not a)"
  unfolding grunt_vm_not_def a_vm_not_def
  apply (rule sim_pop[OF assms])
  apply (auto simp add: Let_def intro!: sim_push)
  done

lemma sim_vm_halt:
  assumes "rel b q e s a"
  shows "sim b q e (grunt_vm_halt RA s) (a_vm_halt a)"
  unfolding grunt_vm_halt_def a_vm_halt_def
  apply (rule sim_pop[OF assms])
  apply (auto simp add: Let_def)
  done

lemma sim_vm_jmpif:
  assumes "rel b q e s a"
  shows "sim b q e (grunt_vm_jmpif RA l s) (a_vm_jmpif l a)"
  unfolding grunt_vm_jmpif_def a_vm_jmpif_def
  using assms
  apply (simp)
  apply (intro impI conjI)
  apply (rule sim_pop[OF assms])
  apply (auto simp add: rel_pc)
  done

lemma sim_vm_return:
  assumes "rel b q e s a"
  shows "sim b q e (grunt_vm_return RA s) (a_vm_return a)"
  unfolding grunt_vm_return_def a_vm_return_def
  apply (rule sim_ctl_pop[OF assms])
  apply (auto simp add: rel_pc)
  done

lemma sim_chk:
  assumes "sim b q e r ar"
    and "\<And>s1 a1. rel b q e s1 a1 \<Longrightarrow> sim b q e (k s1) (ak a1)"
  shows "sim b q e (chk r k) (chk ar ak)"
  using assms by (cases r; cases ar) (auto simp add: chk_def)

lemma sim_vm_call:
  assumes "rel b q e s a"
  shows "sim b q e (grunt_vm_call RA l s) (a_vm_call l a)"
  unfolding grunt_vm_call_def a_vm_call_def Let_def
  using assms
  apply (simp add: rel_pc(2))
  apply (intro impI conjI)
  apply (rule sim_chk)
   apply (rule sim_ctl_push)
   apply (simp_all add: rel_pc)
  done


lemma pop_cases:
  assumes "rel b q e s a"
  obtains (empty) "a_args a = []" "grunt_stack_arg_pop p s = (GRUNT_ERROR_OUTOFBOUNDS, s)"
  | (cons) v vs s1 where "a_args a = v # vs" "grunt_stack_arg_pop p s = (0, s1)"
      "rel b q e s1 (a\<lparr>a_args := vs\<rparr>)" "deref p s1 = v"
      "(p = RA \<longrightarrow> g_rb s1 = g_rb s) \<and> (p = RB \<longrightarrow> g_ra s1 = g_ra s)"
proof (cases "g_argument_count s")
  case 0
  with assms show ?thesis
    by (intro empty) (auto simp add: rel_def grunt_stack_arg_pop_def view_def)
next
  case (Suc n)
  let ?s1 = "store p (g_stack s n) (s\<lparr>g_argument_count := n\<rparr>)"
  from Suc assms have a: "a_args a = g_stack s n # map (g_stack s) (rev [0..<n])"
    by (auto simp add: rel_def view_def)
  from Suc assms have "rel b q e (s\<lparr>g_argument_count := n\<rparr>) (a\<lparr>a_args := map (g_stack s) (rev [0..<n])\<rparr>)"
    by (auto simp add: rel_def view_def stack_ok_def env_of_def)
  then have r: "rel b q e ?s1 (a\<lparr>a_args := map (g_stack s) (rev [0..<n])\<rparr>)"
    by (simp only: rel_store)
  from Suc have p: "grunt_stack_arg_pop p s = (0, ?s1)"
    by (simp add: grunt_stack_arg_pop_def)
  show ?thesis
    by (rule cons[OF a p r]) (cases p; simp)+
qed

lemma sim_pop_loop:
  assumes "rel b q e s a"
  shows "sim b q e (pop_loop p k s) (a_pop_loop k a)"
  using assms
proof (induction k arbitrary: s a)
  case 0
  then show ?case by simp
next
  case (Suc k)
  show ?case
    by (simp, rule sim_pop[OF Suc.prems]) (rule Suc.IH)
qed

lemma sim_and_or_loop:
  assumes "rel b q e s a" and "g_ra s = ra"
  shows "case and_or_loop RA RB f k s of (st, s2) \<Rightarrow>
           case a_and_or_loop f k (ra, a) of (st', ra2, a2) \<Rightarrow>
             st = st' \<and> rel b q e s2 a2 \<and> (st = 0 \<longrightarrow> g_ra s2 = ra2)"
  using assms
proof (induction k arbitrary: s a ra)
  case 0
  then show ?case by simp
next
  case (Suc k)
  from Suc.prems(1) show ?case
  proof (cases rule: pop_cases[where p=RB])
    case empty
    with Suc.prems show ?thesis by (simp add: chk_def)
  next
    case (cons v vs s1)
    show ?thesis
    proof (cases "type_of v = gt_bool")
      case False
      with cons show ?thesis by (simp add: chk_def)
    next
      case True
      let ?ra = "VBool (if f then val_b (g_ra s1) \<and> val_b v else val_b (g_ra s1) \<or> val_b v)"
      from cons have r: "rel b q e (s1\<lparr>g_ra := ?ra\<rparr>) (a\<lparr>a_args := vs\<rparr>)" by simp
      from Suc.IH[OF r, of ?ra] cons True Suc.prems(2)
      show ?thesis by (cases f) (simp_all add: chk_def)
    qed
  qed
qed

lemma sim_eq_loop:
  assumes "rel b q e s a" and "g_ra s = ra"
  shows "case eq_loop RA RB k (fl, s) of (st, fl2, s2) \<Rightarrow>
           case a_eq_loop ra k (fl, a) of (st', fl2', a2) \<Rightarrow>
             st = st' \<and> fl2 = fl2' \<and> rel b q e s2 a2"
  using assms
proof (induction k arbitrary: s a fl)
  case 0
  then show ?case by simp
next
  case (Suc k)
  from Suc.prems(1) show ?case
  proof (cases rule: pop_cases[where p=RB])
    case empty
    with Suc.prems show ?thesis by simp
  next
    case (cons v vs s1)
    show ?thesis
    proof (cases "type_of v = gt_num")
      case False
      with cons show ?thesis by simp
    next
      case True
      from cons Suc.prems(2) have g: "g_ra s1 = ra" by simp
      from Suc.IH[OF cons(3) g] cons True Suc.prems(2)
      show ?thesis by simp
    qed
  qed
qed


lemma sim_vm_and_or:
  assumes "rel b q e s a"
  shows "sim b q e (grunt_vm_and_or RA RB n f s) (a_vm_and_or n f a)"
proof (cases "n < 2")
  case True
  with assms show ?thesis by (simp add: grunt_vm_and_or_def a_vm_and_or_def)
next
  case False
  from assms show ?thesis
  proof (cases rule: pop_cases[where p=RA])
    case empty
    with False assms show ?thesis
      by (simp add: grunt_vm_and_or_def a_vm_and_or_def a_pop_def chk_def)
  next
    case (cons v vs s1)
    show ?thesis
    proof (cases "type_of v = gt_bool")
      case f: False
      with cons False show ?thesis
        by (simp add: grunt_vm_and_or_def a_vm_and_or_def a_pop_def chk_def)
    next
      case True
      from cons have g: "g_ra s1 = v" by simp
      obtain st s2 where c: "and_or_loop RA RB f (unat n - 1) s1 = (st, s2)"
        by (cases "and_or_loop RA RB f (unat n - 1) s1")
      obtain st' ra2 a2 where d: "a_and_or_loop f (unat n - 1) (v, a\<lparr>a_args := vs\<rparr>) = (st', ra2, a2)"
        by (cases "a_and_or_loop f (unat n - 1) (v, a\<lparr>a_args := vs\<rparr>)")
      from sim_and_or_loop[OF cons(3) g, of f "unat n - 1"] c d
      have l: "st = st'" "rel b q e s2 a2" "st = 0 \<longrightarrow> g_ra s2 = ra2" by simp_all
      from sim_push[OF l(2), of ra2] l cons True False c d g show ?thesis
        by (simp add: grunt_vm_and_or_def a_vm_and_or_def a_pop_def chk_def)
    qed
  qed
qed

lemma sim_vm_eq:
  assumes "rel b q e s a"
  shows "sim b q e (grunt_vm_eq RA RB n s) (a_vm_eq n a)"
proof (cases "n < 2")
  case True
  with assms show ?thesis by (simp add: grunt_vm_eq_def a_vm_eq_def)
next
  case False
  from assms show ?thesis
  proof (cases rule: pop_cases[where p=RA])
    case empty
    with False assms show ?thesis
      by (simp add: grunt_vm_eq_def a_vm_eq_def a_pop_def chk_def)
  next
    case (cons v vs s1)
    show ?thesis
    proof (cases "type_of v = gt_num")
      case f: False
      with cons False show ?thesis
        by (simp add: grunt_vm_eq_def a_vm_eq_def a_pop_def chk_def)
    next
      case True
      from cons have g: "g_ra s1 = v" by simp
      obtain st fl s2 where c: "eq_loop RA RB (unat n - 1) (True, s1) = (st, fl, s2)"
        by (cases "eq_loop RA RB (unat n - 1) (True, s1)")
      obtain st' fl' a2 where d: "a_eq_loop v (unat n - 1) (True, a\<lparr>a_args := vs\<rparr>) = (st', fl', a2)"
        by (cases "a_eq_loop v (unat n - 1) (True, a\<lparr>a_args := vs\<rparr>)")
      from sim_eq_loop[OF cons(3) g, of "unat n - 1" True] c d
      have l: "st = st'" "fl = fl'" "rel b q e s2 a2" by simp_all
      from l(3) have r2: "rel b q e (s2\<lparr>g_ra := VBool fl\<rparr>) a2" by simp
      from sim_push[OF r2, of "VBool fl"] l cons True False c d g show ?thesis
        by (simp add: grunt_vm_eq_def a_vm_eq_def a_pop_def chk_def Let_def)
    qed
  qed
qed

lemma sim_vm_flush:
  assumes "rel b q e s a"
  shows "sim b q e (grunt_vm_flush q RA RB s) (a_vm_flush e a)"
  unfolding grunt_vm_flush_def a_vm_flush_def
  apply (rule sim_pop[OF assms])
  apply (simp)
  apply (intro impI)
  apply (rule sim_pop, assumption)
  apply (auto simp add: rel_flush)
  done

lemma sim_vm_input:
  assumes "rel b q e s a"
  shows "sim b q e (grunt_vm_input RA n s) (a_vm_input e n a)"
proof (cases "n \<noteq> 4 \<and> n \<noteq> 2 \<and> n \<noteq> 1")
  case True
  with assms show ?thesis by (simp add: grunt_vm_input_def a_vm_input_def)
next
  case False
  have "sim b q e (chk (grunt_input_dequeue RA n s) (\<lambda>s1. grunt_stack_arg_push (deref RA s1) s1))
          (a_dequeue e n a a_push)"
    by (rule sim_dequeue[OF assms]) (auto intro!: sim_push)
  with False show ?thesis
    by (simp only: grunt_vm_input_def a_vm_input_def if_False)
qed

lemma sim_vm_output:
  assumes "rel b q e s a"
  shows "sim b q e (grunt_vm_output q RA s) (a_vm_output e a)"
  unfolding grunt_vm_output_def a_vm_output_def
  apply (rule sim_pop[OF assms])
  apply (auto simp add: sim_enqueue_boolean sim_enqueue_number sim_enqueue_string
      split: grunt_value_type_t.splits)
  done

lemma sim_step:
  assumes "rel b q e s a"
  shows "sim b q e (grunt_vm_step q i s) (a_step e i a)"
proof -
  from assms have r: "rel b q e (s\<lparr>g_pc := g_pc s + 1\<rparr>) (a\<lparr>a_pc := a_pc a + 1\<rparr>)"
    by (simp add: rel_pc)
  show ?thesis
    unfolding grunt_vm_step_def a_step_def Let_def
    by (simp add: r sim_vm_add_sub sim_vm_and_or sim_vm_call sim_vm_eq sim_vm_flush sim_vm_lt_gt
        sim_vm_halt sim_vm_input sim_vm_jmpif sim_vm_not sim_vm_output sim_pop_loop sim_push
        sim_vm_return sim_rewind sim_dup sim_roll
        grunt_vm_dup_def a_vm_dup_def grunt_vm_pop_def a_vm_pop_def
        grunt_vm_pushb_def a_vm_pushb_def grunt_vm_pushn_def a_vm_pushn_def
        grunt_vm_pushs_def a_vm_pushs_def grunt_vm_roll_def a_vm_roll_def
        grunt_vm_rewind_def)
qed


section \<open>Termination of the run loop\<close>

lemma keeps_ret [simp]:
  "keeps a (st, a') \<longleftrightarrow> a_ctl a' = a_ctl a \<and> a_pc a' = a_pc a \<and> st \<in> insert 0 end_codes"
  by (simp add: keeps_def)

lemma end_codes_simps [simp]:
  "1 \<in> end_codes" "2 \<in> end_codes" "17 \<in> end_codes" "18 \<in> end_codes" "19 \<in> end_codes"
  "20 \<in> end_codes" "21 \<in> end_codes" "22 \<in> end_codes" "23 \<in> end_codes" "0 \<notin> end_codes"
  by (simp_all add: end_codes_def)

lemma keeps_trans:
  "a_ctl a1 = a_ctl a \<Longrightarrow> a_pc a1 = a_pc a \<Longrightarrow> keeps a1 r \<Longrightarrow> keeps a r"
  by (simp add: keeps_def)

lemma keeps_push: "keeps a (a_push v a)"
  by (simp add: a_push_def)

lemma keeps_pop:
  assumes "\<And>v vs. a_args a = v # vs \<Longrightarrow> keeps (a\<lparr>a_args := vs\<rparr>) (k v (a\<lparr>a_args := vs\<rparr>))"
  shows "keeps a (a_pop a k)"
  using assms by (auto simp add: a_pop_def keeps_def split: list.splits)

lemma keeps_dup: "keeps a (a_dup n a)"
  by (simp add: a_dup_def)

lemma keeps_roll: "keeps a (a_roll n a)"
  by (simp add: a_roll_def)

lemma keeps_rewind: "keeps a (a_rewind n a)"
  by (simp add: a_rewind_def)

lemma keeps_dequeue:
  assumes "\<And>v. keeps (a\<lparr>a_head := a_head a + n\<rparr>) (k v (a\<lparr>a_head := a_head a + n\<rparr>))"
  shows "keeps a (a_dequeue e n a k)"
  using assms by (auto simp add: a_dequeue_def keeps_def split: option.splits)

lemma keeps_enqueue: "keeps a (a_enqueue e str len a)"
  by (simp add: a_enqueue_def)

lemma keeps_pop_loop: "keeps a (a_pop_loop k a)"
proof (induction k arbitrary: a)
  case 0
  show ?case by simp
next
  case (Suc k)
  show ?case by (simp, rule keeps_pop) (rule Suc.IH)
qed

lemma keeps_and_or_loop:
  "case a_and_or_loop f k (ra, a) of (st, ra2, a2) \<Rightarrow> keeps a (st, a2)"
proof (induction k arbitrary: a ra)
  case 0
  show ?case by simp
next
  case (Suc k)
  show ?case
  proof (cases "a_args a")
    case Nil
    then show ?thesis by simp
  next
    case (Cons rb vs)
    from Suc.IH[where ra="VBool (if f then val_b ra \<and> val_b rb else val_b ra \<or> val_b rb)" and a="a\<lparr>a_args := vs\<rparr>"]
    show ?thesis using Cons by (auto split: prod.splits)
  qed
qed

lemma keeps_eq_loop:
  "case a_eq_loop ra k (fl, a) of (st, fl2, a2) \<Rightarrow> keeps a (st, a2)"
proof (induction k arbitrary: a fl)
  case 0
  show ?case by simp
next
  case (Suc k)
  show ?case
  proof (cases "a_args a")
    case Nil
    then show ?thesis by simp
  next
    case (Cons rb vs)
    from Suc.IH[where fl="if val_num ra \<noteq> val_num rb then False else fl" and a="a\<lparr>a_args := vs\<rparr>"]
    show ?thesis using Cons by (auto split: prod.splits)
  qed
qed

lemma keeps_vm_add_sub: "keeps a (a_vm_add_sub f a)"
  unfolding a_vm_add_sub_def
  by (rule keeps_pop, simp, intro impI, rule keeps_pop)
     (auto intro!: keeps_trans[OF _ _ keeps_push])


lemma keeps_vm_lt_gt: "keeps a (a_vm_lt_gt f a)"
  unfolding a_vm_lt_gt_def
  by (rule keeps_pop, simp, intro impI, rule keeps_pop)
     (auto intro!: keeps_trans[OF _ _ keeps_push])

lemma keeps_vm_not: "keeps a (a_vm_not a)"
  unfolding a_vm_not_def
  by (rule keeps_pop) (auto intro!: keeps_trans[OF _ _ keeps_push])

lemma keeps_vm_halt: "keeps a (a_vm_halt a)"
  unfolding a_vm_halt_def
  by (rule keeps_pop) auto

lemma keeps_vm_flush: "keeps a (a_vm_flush e a)"
  unfolding a_vm_flush_def
  by (rule keeps_pop, simp, intro impI, rule keeps_pop) (auto simp add: a_flush_def)

lemma keeps_vm_input: "keeps a (a_vm_input e n a)"
  unfolding a_vm_input_def
  by (auto intro!: keeps_dequeue keeps_trans[OF _ _ keeps_push])

lemma keeps_vm_output: "keeps a (a_vm_output e a)"
  unfolding a_vm_output_def
  by (rule keeps_pop)
     (auto simp add: a_enqueue_boolean_def a_enqueue_number_def a_enqueue_string_def Let_def
       split: grunt_value_type_t.splits intro!: keeps_trans[OF _ _ keeps_enqueue])

lemma keeps_vm_and_or: "keeps a (a_vm_and_or n f a)"
proof -
  have "keeps a1 (case a_and_or_loop f k (ra, a1) of (status, ra2, a2) \<Rightarrow>
           if status \<noteq> 0 then (status, a2) else a_push ra2 a2)" for a1 k ra
    using keeps_and_or_loop[where f=f and k=k and ra=ra and a=a1]
    by (auto split: prod.splits intro: keeps_trans[OF _ _ keeps_push])
  then show ?thesis
    unfolding a_vm_and_or_def
    by (auto intro!: keeps_pop)
qed

lemma keeps_vm_eq: "keeps a (a_vm_eq n a)"
proof -
  have "keeps a1 (case a_eq_loop ra k (True, a1) of (status, fl, a2) \<Rightarrow>
           if status \<noteq> 0 then (status, a2) else a_push (VBool fl) a2)" for a1 k ra
    using keeps_eq_loop[where ra=ra and k=k and fl=True and a=a1]
    by (auto split: prod.splits intro: keeps_trans[OF _ _ keeps_push])
  then show ?thesis
    unfolding a_vm_eq_def
    by (auto intro!: keeps_pop)
qed

lemma keeps_plain_step:
  assumes "op i \<noteq> GRUNT_OP_CALL" "op i \<noteq> GRUNT_OP_JMPIF" "op i \<noteq> GRUNT_OP_RETURN"
  shows "keeps (a\<lparr>a_pc := a_pc a + 1\<rparr>) (a_step e i a)"
  using assms
  unfolding a_step_def Let_def
  by (simp add: keeps_vm_add_sub keeps_vm_and_or keeps_vm_eq keeps_vm_flush keeps_vm_lt_gt
      keeps_vm_halt keeps_vm_input keeps_vm_not keeps_vm_output keeps_pop_loop keeps_push
      keeps_rewind keeps_dup keeps_roll
      a_vm_dup_def a_vm_pop_def a_vm_pushb_def a_vm_pushn_def a_vm_pushs_def a_vm_roll_def)

lemma call_step:
  assumes "a_vm_call l a = (st, a')"
  shows "st \<in> insert 0 end_codes" and "st = 0 \<Longrightarrow> a_ctl a' = VPC (a_pc a) # a_ctl a"
  using assms
  by (auto simp add: a_vm_call_def a_ctl_push_def chk_def split: if_splits)

lemma return_step:
  assumes "a_vm_return a = (st, a')"
  shows "st \<in> insert 0 end_codes"
    and "st = 0 \<Longrightarrow> \<exists>v. a_ctl a = v # a_ctl a' \<and> a_pc a' = val_pc v"
  using assms
  by (auto simp add: a_vm_return_def a_ctl_pop_def split: list.splits)

lemma jmpif_step:
  assumes "a_vm_jmpif l a = (st, a')"
  shows "st \<in> insert 0 end_codes"
    and "st = 0 \<Longrightarrow> a_ctl a' = a_ctl a \<and> unat (a_pc a) \<le> unat (a_pc a')"
proof -
  have j: "unat (p + (x - 1)) = unat p + unat x - 1 \<and> 2 \<le> unat x"
    if "\<not> x < 2" "\<not> unat x > 65535 - unat p" for p x :: "16 word"
  proof -
    from that(1) have x2: "2 \<le> unat x" by (simp add: word_less_nat_alt)
    then have "unat (x - 1) = unat x - 1" by (simp add: unat_sub word_le_nat_alt)
    moreover have "unat p < 65536" using unsigned_less[of p, where 'a=nat] by simp
    ultimately show ?thesis using that(2) x2
      by (simp add: unat_add_lem[THEN iffD1])
  qed
  show "st \<in> insert 0 end_codes" and "st = 0 \<Longrightarrow> a_ctl a' = a_ctl a \<and> unat (a_pc a) \<le> unat (a_pc a')"
    using assms j[of "val_pc l" "a_pc a"]
    by (auto simp add: a_vm_jmpif_def a_pop_def split: if_splits list.splits)
qed


lemma a_step_status: "fst (a_step e i a) \<in> insert 0 end_codes"
proof (cases "op i = GRUNT_OP_CALL \<or> op i = GRUNT_OP_JMPIF \<or> op i = GRUNT_OP_RETURN")
  case False
  with keeps_plain_step[where i=i and a=a and e=e] show ?thesis by (simp add: keeps_def)
next
  case True
  then show ?thesis
    using call_step(1)[OF surjective_pairing] jmpif_step(1)[OF surjective_pairing]
      return_step(1)[OF surjective_pairing]
    by (auto simp add: a_step_def Let_def)
qed

lemma measure_step:
  assumes st: "a_step e i a = (0, a')" and pc: "a_pc a < n"
    and len: "length (a_ctl a) \<le> GRUNT_STACK_SIZE" "length (a_ctl a') \<le> GRUNT_STACK_SIZE"
  shows "(run_measure a', run_measure a) \<in> lex less_than"
proof -
  note u = pc_succ_unat[OF pc]
  have b: "unat p < 65536" for p :: "16 word"
    using unsigned_less[of p, where 'a=nat] by simp
  let ?f = "\<lambda>v. 65536 - unat (val_pc v)"
  have same: "(run_measure a', run_measure a) \<in> lex less_than"
    if "a_ctl a' = a_ctl a" "unat (a_pc a) < unat (a_pc a')"
    using that b[of "a_pc a'"]
    by (auto simp add: run_measure_def intro!: lex_append_leftI)
  consider (call) "op i = GRUNT_OP_CALL" | (jmpif) "op i = GRUNT_OP_JMPIF"
    | (return) "op i = GRUNT_OP_RETURN"
    | (plain) "op i \<noteq> GRUNT_OP_CALL" "op i \<noteq> GRUNT_OP_JMPIF" "op i \<noteq> GRUNT_OP_RETURN"
    by blast
  then show ?thesis
  proof cases
    case plain
    from keeps_plain_step[OF plain, where a=a and e=e] st
    have "a_ctl a' = a_ctl a" "a_pc a' = a_pc a + 1" by (simp_all add: keeps_def)
    with u show ?thesis by (intro same) simp_all
  next
    case jmpif
    with st have "a_vm_jmpif (arg_lit i) (a\<lparr>a_pc := a_pc a + 1\<rparr>) = (0, a')"
      by (simp add: a_step_def Let_def)
    from jmpif_step(2)[OF this] u show ?thesis by (intro same) simp_all
  next
    case call
    with st have "a_vm_call (arg_lit i) (a\<lparr>a_pc := a_pc a + 1\<rparr>) = (0, a')"
      by (simp add: a_step_def Let_def)
    from call_step(2)[OF this] have c: "a_ctl a' = VPC (a_pc a + 1) # a_ctl a" by simp
    with len(2) have k: "length (a_ctl a) < GRUNT_STACK_SIZE" by simp
    then have r: "replicate (GRUNT_STACK_SIZE - length (a_ctl a)) (0::nat) =
                  0 # replicate (GRUNT_STACK_SIZE - Suc (length (a_ctl a))) 0"
      by (cases "GRUNT_STACK_SIZE - length (a_ctl a)") simp_all
    show ?thesis
      using b[of "a_pc a"] u
      by (auto simp add: run_measure_def c r intro!: lex_append_leftI)
  next
    case return
    with st have "a_vm_return (a\<lparr>a_pc := a_pc a + 1\<rparr>) = (0, a')"
      by (simp add: a_step_def Let_def)
    from return_step(2)[OF this] obtain v where
      c: "a_ctl a = v # a_ctl a'" and p: "a_pc a' = val_pc v" by auto
    with len(1) have k: "length (a_ctl a') < GRUNT_STACK_SIZE" by simp
    then have r: "replicate (GRUNT_STACK_SIZE - length (a_ctl a')) (0::nat) =
                  0 # replicate (GRUNT_STACK_SIZE - Suc (length (a_ctl a'))) 0"
      by (cases "GRUNT_STACK_SIZE - length (a_ctl a')") simp_all
    show ?thesis
      using b[of "a_pc a"]
      by (auto simp add: run_measure_def c p r intro!: lex_append_leftI)
  qed
qed

lemma rel_ctl_length: "rel b q e s a \<Longrightarrow> length (a_ctl a) \<le> GRUNT_STACK_SIZE"
  by (auto simp add: rel_def view_def stack_ok_def)

lemma rel_pc_eq: "rel b q e s a \<Longrightarrow> g_pc s = a_pc a"
  by (auto simp add: rel_def view_def)

lemma run_loop_sim:
  assumes "rel b q e s a"
  shows "\<exists>st s' a'. run_loop q prog n s = Some (st, s') \<and> a_loop e prog n a = Some (st, a') \<and>
           rel b q e s' a' \<and> st \<in> end_codes"
proof -
  have wf: "wf (inv_image (lex less_than) run_measure)"
    by (intro wf_inv_image wf_lex wf_less_than)
  from wf assms show ?thesis
  proof (induction a arbitrary: s rule: wf_induct_rule)
    case (less a)
    note pc = rel_pc_eq[OF less.prems]
    show ?case
    proof (cases "a_pc a < n")
      case False
      with pc less.prems show ?thesis
        by (subst run_loop.simps, subst a_loop.simps) simp
    next
      case True
      let ?i = "prog ! unat (a_pc a)"
      obtain st s1 where step: "grunt_vm_step q ?i s = (st, s1)"
        by (cases "grunt_vm_step q ?i s")
      obtain st' a1 where astep: "a_step e ?i a = (st', a1)"
        by (cases "a_step e ?i a")
      from sim_step[OF less.prems, where i="?i"] step astep
      have eq: "st' = st" and r1: "rel b q e s1 a1"
        by (simp_all add: sim_def)
      show ?thesis
      proof (cases "st = 0")
        case nz: False
        from a_step_status[where e=e and i="?i" and a=a] astep eq nz have "st \<in> end_codes"
          by simp
        with True step astep eq nz pc r1 show ?thesis
          by (subst run_loop.simps, subst a_loop.simps) simp
      next
        case z: True
        from measure_step[OF astep[unfolded eq z] True rel_ctl_length[OF less.prems]
            rel_ctl_length[OF r1]]
        have "(a1, a) \<in> inv_image (lex less_than) run_measure" by simp
        from less.IH[OF this r1] True step astep eq z pc show ?thesis
          by (subst run_loop.simps, subst a_loop.simps) simp
      qed
    qed
  qed
qed

lemma init_rel:
  "rel (evs_sent s) q (run_env q d sz strs ns)
     (grunt_vm_init (grunt_output_init q strs ns (grunt_input_init d sz (grunt_stack_init s))))
     (a_init q)"
  by (simp add: rel_def view_def stack_ok_def env_of_def run_env_def a_init_def grunt_vm_init_def
      grunt_output_init_def grunt_output_reset_def grunt_input_init_def grunt_input_rewind_def
      grunt_stack_init_def)

lemma GRUNT_Run_view:
  "\<exists>st s' a'. GRUNT_Run q prog n d sz strs ns s = Some (st, s') \<and>
      a_loop (run_env q d sz strs ns) prog n (a_init q) = Some (st, a') \<and>
      evs_sent s' = evs_sent s @ a_evs a' \<and> st \<in> end_codes"
proof -
  from run_loop_sim[OF init_rel[where s=s and q=q and d=d and sz=sz and strs=strs and ns=ns],
      where prog=prog and n=n]
  obtain st s' a' where
    "GRUNT_Run q prog n d sz strs ns s = Some (st, s')"
    "a_loop (run_env q d sz strs ns) prog n (a_init q) = Some (st, a')"
    "rel (evs_sent s) q (run_env q d sz strs ns) s' a'" "st \<in> end_codes"
    by (auto simp add: GRUNT_Run_def)
  moreover from this(3) have "evs_sent s' = evs_sent s @ a_evs a'"
    by (auto simp add: rel_def view_def) (metis append_take_drop_id)
  ultimately show ?thesis by blast
qed

text \<open>C2. For every program, every input and every string table, and from every state of
  the interpreter's variables, \<^verbatim>\<open>GRUNT_Run\<close> returns: its loop ends after finitely many steps
  with one of the two halt statuses or one of the fault statuses. In particular the loop
  returns \<open>NoProgram\<close> at once when the program counter has reached the program length.\<close>

theorem grunt_run_terminates:
  "(\<exists>st s'. GRUNT_Run qsize program num_instructions p_data data_size string_table num_strings s =
             Some (st, s') \<and> st \<in> end_codes) \<and>
   run_loop qsize program (g_pc t) t = Some (GRUNT_ERROR_NOPROGRAM, t)"
proof
  from GRUNT_Run_view[where q=qsize and prog=program and n=num_instructions and d=p_data
      and sz=data_size and strs=string_table and ns=num_strings and s=s]
  show "\<exists>st s'. GRUNT_Run qsize program num_instructions p_data data_size string_table
          num_strings s = Some (st, s') \<and> st \<in> end_codes"
    by blast
  show "run_loop qsize program (g_pc t) t = Some (GRUNT_ERROR_NOPROGRAM, t)"
    by (subst run_loop.simps) simp
qed

text \<open>C9. Two runs in succession of the same program (the validator or any other) on the
  same input with the same string table return the same status and send the same sequence
  of events (same ids, types and lines, in the same order), whatever the state of the
  interpreter's variables before the first run: \<^verbatim>\<open>GRUNT_Run\<close> initialises the stacks, the
  input cursor, the output buffer and the program counter on entry, and what it leaves
  uninitialised (the registers and the unused slots of the stack array) is written before it
  is read.\<close>

theorem run_twice_same_events:
  "\<exists>st s1 s2 evs.
     GRUNT_Run qsize program num_instructions p_data data_size string_table num_strings s0 =
       Some (st, s1) \<and>
     GRUNT_Run qsize program num_instructions p_data data_size string_table num_strings s1 =
       Some (st, s2) \<and>
     evs_sent s1 = evs_sent s0 @ evs \<and> evs_sent s2 = evs_sent s1 @ evs"
proof -
  from GRUNT_Run_view[where q=qsize and prog=program and n=num_instructions and d=p_data
      and sz=data_size and strs=string_table and ns=num_strings and s=s0]
  obtain st s1 a1 where 1:
    "GRUNT_Run qsize program num_instructions p_data data_size string_table num_strings s0 =
       Some (st, s1)"
    "a_loop (run_env qsize p_data data_size string_table num_strings) program num_instructions
       (a_init qsize) = Some (st, a1)"
    "evs_sent s1 = evs_sent s0 @ a_evs a1"
    by blast
  from GRUNT_Run_view[where q=qsize and prog=program and n=num_instructions and d=p_data
      and sz=data_size and strs=string_table and ns=num_strings and s=s1]
  obtain st' s2 a2 where 2:
    "GRUNT_Run qsize program num_instructions p_data data_size string_table num_strings s1 =
       Some (st', s2)"
    "a_loop (run_env qsize p_data data_size string_table num_strings) program num_instructions
       (a_init qsize) = Some (st', a2)"
    "evs_sent s2 = evs_sent s1 @ a_evs a2"
    by blast
  from 1(2) 2(2) have "st' = st" "a2 = a1" by simp_all
  with 1 2 show ?thesis by blast
qed

end
